theory Spec2Isabelle
  imports Complex_Main "HOL-Library.Log_Nat"
begin

section \<open>Python values and exceptions\<close>

text \<open>
  The exceptions of \<^verbatim>\<open>booster.py\<close> that can leave a function are values of
  \<open>py_error\<close>; a function that may raise returns \<open>py_error + 'a\<close>, with \<open>Inl\<close>
  the exception. \<open>RuntimeError\<close> carries its message, \<open>KeyError\<close> the missing key.
\<close>

datatype py_error = RuntimeError string | KeyError string | ZeroDivisionError | OverflowError

subsection \<open>Floats\<close>

text \<open>
  A Python float is an IEEE 754 binary64 number. The finite ones are the rationals
  \<open>m * 2 ^ e\<close> with \<open>\<bar>m\<bar> < 2 ^ 53\<close> and \<open>- 1074 \<le> e \<le> 971\<close>; the sign of zero is not
  kept. \<open>flog2 x\<close> is \<open>\<lfloor>log\<^sub>2 x\<rfloor>\<close> for a positive rational, \<open>ulp_exponent x\<close> the exponent
  of the last place of the binary64 numbers around \<open>x\<close> (that of the subnormal numbers
  at the least), and \<open>round_double x\<close> the multiple of that last place nearest to \<open>x\<close>,
  ties to the even one: the rounding of every arithmetic operation. A result beyond the
  largest finite number \<open>double_max\<close> is an infinity.
\<close>

datatype py_float = Finite rat | PosInf | NegInf | NaN

definition flog2 :: "rat \<Rightarrow> int" where
  "flog2 x =
     (case quotient_of x of (p, q) \<Rightarrow>
        let d = bitlen p - bitlen q in if 2 powi d \<le> x then d else d - 1)"

definition round_half_even :: "rat \<Rightarrow> int" where
  "round_half_even x =
     (let f = \<lfloor>x\<rfloor>; d = x - of_int f
      in if d < 1 / 2 then f else if 1 / 2 < d then f + 1
         else if even f then f else f + 1)"

definition ulp_exponent :: "rat \<Rightarrow> int" where
  "ulp_exponent x = max (flog2 \<bar>x\<bar> - 52) (- 1074)"

definition round_double :: "rat \<Rightarrow> rat" where
  "round_double x =
     (if x = 0 then 0
      else of_int (round_half_even (x / 2 powi ulp_exponent x)) * 2 powi ulp_exponent x)"

definition double_max :: rat where
  "double_max = (2 ^ 53 - 1) * 2 ^ 971"

definition float_of_rat :: "rat \<Rightarrow> py_float" where
  "float_of_rat x =
     (let y = round_double x
      in if double_max < y then PosInf else if y < - double_max then NegInf else Finite y)"

fun float_mul :: "py_float \<Rightarrow> py_float \<Rightarrow> py_float" where
  "float_mul (Finite a) (Finite b) = float_of_rat (a * b)"
| "float_mul NaN _ = NaN"
| "float_mul _ NaN = NaN"
| "float_mul (Finite a) PosInf = (if a = 0 then NaN else if 0 < a then PosInf else NegInf)"
| "float_mul (Finite a) NegInf = (if a = 0 then NaN else if 0 < a then NegInf else PosInf)"
| "float_mul PosInf (Finite b) = (if b = 0 then NaN else if 0 < b then PosInf else NegInf)"
| "float_mul NegInf (Finite b) = (if b = 0 then NaN else if 0 < b then NegInf else PosInf)"
| "float_mul PosInf PosInf = PosInf"
| "float_mul NegInf NegInf = PosInf"
| "float_mul PosInf NegInf = NegInf"
| "float_mul NegInf PosInf = NegInf"

text \<open>Python's \<^verbatim>\<open>a / b\<close> on integers (true division): raises
  \<^verbatim>\<open>ZeroDivisionError\<close> when \<open>b\<close> is zero, returns the float nearest to the quotient,
  and raises \<^verbatim>\<open>OverflowError\<close> when that is no finite float.\<close>

definition py_truediv :: "int \<Rightarrow> int \<Rightarrow> py_error + py_float" where
  "py_truediv a b =
     (if b = 0 then Inl ZeroDivisionError
      else (case float_of_rat (of_int a / of_int b) of
              Finite y \<Rightarrow> Inr (Finite y)
            | _ \<Rightarrow> Inl OverflowError))"


text \<open>Python's \<^verbatim>\<open>int(x)\<close> on a number: truncation towards zero. It is applied
  to differences of clock readings, which are whole numbers of microseconds and are
  kept as the rationals they are.\<close>

definition py_int :: "rat \<Rightarrow> int" where
  "py_int x = (if 0 \<le> x then \<lfloor>x\<rfloor> else \<lceil>x\<rceil>)"

text \<open>Python's \<^verbatim>\<open>xs[a:b]\<close>: a negative index counts from the end, and both ends
  are clipped to the list.\<close>

definition py_slice :: "'a list \<Rightarrow> int \<Rightarrow> int \<Rightarrow> 'a list" where
  "py_slice xs a b =
     (let n = int (length xs);
          clip = (\<lambda>i. if i < 0 then max 0 (n + i) else min n i)
      in take (nat (clip b - clip a)) (drop (nat (clip a)) xs))"

section \<open>Config and Statistics\<close>

record config =
  timeout :: int
  thread_num :: int
  round_time :: int
  update_pbar_count :: int
  max_proxies :: int
  min_proxies_threshold :: int

definition Config_init :: config where
  "Config_init = \<lparr> timeout = 3, thread_num = 75, round_time = 305,
     update_pbar_count = 10, max_proxies = 10000, min_proxies_threshold = 100 \<rparr>"

text \<open>Times are readings of \<^verbatim>\<open>datetime.now()\<close> in microseconds, the resolution of
  Python's \<^verbatim>\<open>datetime\<close>; \<open>None\<close> is Python's \<^verbatim>\<open>None\<close>.\<close>

record statistics =
  successful_hits :: int
  initial_view_count :: int
  start_time :: "int option"
  end_time :: "int option"

definition Statistics_init :: statistics where
  "Statistics_init = \<lparr> successful_hits = 0, initial_view_count = 0,
     start_time = None, end_time = None \<rparr>"

text \<open>\<^verbatim>\<open>(self.successful_hits / total_proxies * 100) if total_proxies > 0 else 0.0\<close>\<close>

definition calculate_success_rate :: "statistics \<Rightarrow> int \<Rightarrow> py_error + py_float" where
  "calculate_success_rate s total_proxies =
     (if total_proxies > 0 then
        (case py_truediv (successful_hits s) total_proxies of
           Inl e \<Rightarrow> Inl e
         | Inr q \<Rightarrow> Inr (float_mul q (Finite 100)))
      else Inr (Finite 0))"


text \<open>\<^verbatim>\<open>get_duration\<close>: the difference of the two readings when both are set, else
  \<^verbatim>\<open>timedelta(0)\<close>; in microseconds.\<close>

definition get_duration :: "statistics \<Rightarrow> int" where
  "get_duration s =
     (case (start_time s, end_time s) of
        (Some t0, Some t1) \<Rightarrow> t1 - t0
      | _ \<Rightarrow> 0)"

section \<open>The validator's partition of the candidates\<close>

text \<open>
  The slices \<^verbatim>\<open>filter_proxies\<close> hands to its threads:
  \<^verbatim>\<open>thread_proxy_num = len(total_proxies) // self.config.thread_num\<close>, and thread \<open>i\<close> of
  \<^verbatim>\<open>range(thread_num)\<close> gets \<^verbatim>\<open>total_proxies[start_idx:end_idx]\<close> with
  \<^verbatim>\<open>start_idx = i * thread_proxy_num\<close> and \<^verbatim>\<open>end_idx = start_idx + thread_proxy_num\<close>
  for all but the last thread, \<^verbatim>\<open>len(total_proxies)\<close> for the last. The floor division
  raises for a thread count of zero; a negative thread count gives an empty range.
\<close>

definition thread_slice :: "int \<Rightarrow> 'a list \<Rightarrow> nat \<Rightarrow> 'a list" where
  "thread_slice n total_proxies i =
     (let thread_proxy_num = int (length total_proxies) div n;
          start_idx = int i * thread_proxy_num;
          end_idx = (if int i < n - 1 then start_idx + thread_proxy_num
                     else int (length total_proxies))
      in py_slice total_proxies start_idx end_idx)"

definition thread_slices :: "int \<Rightarrow> 'a list \<Rightarrow> py_error + 'a list list" where
  "thread_slices n total_proxies =
     (if n = 0 then Inl ZeroDivisionError
      else Inr (map (thread_slice n total_proxies) [0..<nat n]))"

section \<open>The validator's threads\<close>

text \<open>What \<^verbatim>\<open>requests.post\<close> does for one probe in \<^verbatim>\<open>filter_proxy_batch\<close>: it raises
  a \<^verbatim>\<open>RequestException\<close>, or returns a response with a status code.\<close>

datatype probe_result = ProbeRaised | ProbeStatus int

text \<open>
  The control points of one thread running \<^verbatim>\<open>filter_proxy_batch(proxies)\<close>, each with
  the proxy at hand and the proxies still to come:
  \<^item> \<open>AtLoop\<close>: at the head of \<^verbatim>\<open>for proxy in proxies\<close>, about to enter the first
    \<^verbatim>\<open>with lock\<close>; with no proxy left the thread has finished;
  \<^item> \<open>InCount\<close>: inside the first \<^verbatim>\<open>with lock\<close>, holding the lock, before
    \<^verbatim>\<open>count += 1\<close>;
  \<^item> \<open>AtProbe\<close>: the lock released, about to post the probe;
  \<^item> \<open>AtAppend\<close>: the probe returned status 200, about to enter the second
    \<^verbatim>\<open>with lock\<close>;
  \<^item> \<open>InAppend\<close>: inside the second \<^verbatim>\<open>with lock\<close>, holding the lock, before
    \<^verbatim>\<open>active_proxies.append(proxy)\<close>.
\<close>

datatype worker =
    AtLoop "string list"
  | InCount string "string list"
  | AtProbe string "string list"
  | AtAppend string "string list"
  | InAppend string "string list"

text \<open>The state the threads share: the closure variables \<^verbatim>\<open>count\<close>,
  \<^verbatim>\<open>active_proxies\<close> and \<^verbatim>\<open>lock\<close> (\<open>Some t\<close> when thread \<open>t\<close> holds it), and
  the control point of every thread.\<close>

record vstate =
  count :: nat
  active_proxies :: "string list"
  lock :: "nat option"
  workers :: "worker list"

definition set_worker :: "nat \<Rightarrow> worker \<Rightarrow> vstate \<Rightarrow> vstate" where
  "set_worker t w s = s\<lparr>workers := (workers s)[t := w]\<rparr>"

text \<open>
  One step of thread \<open>t\<close>; \<open>r\<close> is what the network answers if the step is the probe.
  A thread that waits for a lock another thread holds, or that has finished, does
  nothing. Leaving a \<^verbatim>\<open>with lock\<close> block releases the lock. The progress line the
  first block prints is left out.
\<close>

definition worker_step :: "nat \<Rightarrow> probe_result \<Rightarrow> vstate \<Rightarrow> vstate" where
  "worker_step t r s =
     (if t < length (workers s) then
        (case workers s ! t of
           AtLoop [] \<Rightarrow> s
         | AtLoop (proxy # rest) \<Rightarrow>
             if lock s = None then set_worker t (InCount proxy rest) (s\<lparr>lock := Some t\<rparr>)
             else s
         | InCount proxy rest \<Rightarrow>
             set_worker t (AtProbe proxy rest) (s\<lparr>count := Suc (count s), lock := None\<rparr>)
         | AtProbe proxy rest \<Rightarrow>
             (case r of
                ProbeRaised \<Rightarrow> set_worker t (AtLoop rest) s
              | ProbeStatus c \<Rightarrow>
                  if c = 200 then set_worker t (AtAppend proxy rest) s
                  else set_worker t (AtLoop rest) s)
         | AtAppend proxy rest \<Rightarrow>
             if lock s = None then set_worker t (InAppend proxy rest) (s\<lparr>lock := Some t\<rparr>)
             else s
         | InAppend proxy rest \<Rightarrow>
             set_worker t (AtLoop rest)
               (s\<lparr>active_proxies := active_proxies s @ [proxy], lock := None\<rparr>))
      else s)"

text \<open>A schedule is the order in which the threads take their steps, each with the
  answer of the network for it.\<close>

definition run_threads :: "(nat \<times> probe_result) list \<Rightarrow> vstate \<Rightarrow> vstate" where
  "run_threads sched s = fold (\<lambda>(t, r). worker_step t r) sched s"

definition init_vstate :: "string list list \<Rightarrow> vstate" where
  "init_vstate ss = \<lparr> count = 0, active_proxies = [], lock = None, workers = map AtLoop ss \<rparr>"

fun finished :: "worker \<Rightarrow> bool" where
  "finished (AtLoop []) = True"
| "finished _ = False"

text \<open>
  \<^verbatim>\<open>filter_proxies\<close> under a schedule: one thread per slice, then the joins. The result
  is \<open>None\<close> when some thread has not finished at the end of the schedule (the joins
  still block); otherwise the function raises for an empty \<^verbatim>\<open>active_proxies\<close> and
  returns it else.
\<close>

definition filter_proxies ::
  "config \<Rightarrow> string list \<Rightarrow> (nat \<times> probe_result) list \<Rightarrow> (py_error + string list) option" where
  "filter_proxies cfg total_proxies sched =
     (case thread_slices (thread_num cfg) total_proxies of
        Inl err \<Rightarrow> Some (Inl err)
      | Inr ss \<Rightarrow>
         (let s = run_threads sched (init_vstate ss) in
          if list_all finished (workers s) then
            (if length (active_proxies s) = 0
             then Some (Inl (RuntimeError ''No active proxies found''))
             else Some (Inr (active_proxies s)))
          else None))"

text \<open>Predicates on the threads: the control points inside a \<^verbatim>\<open>with lock\<close> block;
  the threads that have counted their proxy and not yet dropped or appended it; the
  threads on their way to an append; the steps a thread needs when its probes raise.\<close>

fun holds_lock :: "worker \<Rightarrow> bool" where
  "holds_lock (InCount _ _) = True"
| "holds_lock (InAppend _ _) = True"
| "holds_lock _ = False"


fun appending :: "worker \<Rightarrow> bool" where
  "appending (AtAppend _ _) = True"
| "appending (InAppend _ _) = True"
| "appending _ = False"

fun steps_left :: "worker \<Rightarrow> nat" where
  "steps_left (AtLoop ps) = 3 * length ps"
| "steps_left (InCount p ps) = 2 + 3 * length ps"
| "steps_left (AtProbe p ps) = 1 + 3 * length ps"
| "steps_left (AtAppend p ps) = 2 + 3 * length ps"
| "steps_left (InAppend p ps) = 1 + 3 * length ps"







text \<open>The lock is held exactly by the thread inside a \<^verbatim>\<open>with lock\<close> block.\<close>

definition lock_inv :: "vstate \<Rightarrow> bool" where
  "lock_inv s \<longleftrightarrow>
     (\<forall>t < length (workers s). holds_lock (workers s ! t) \<longleftrightarrow> lock s = Some t)
     \<and> (\<forall>t. lock s = Some t \<longrightarrow> t < length (workers s))"


text \<open>Schedules in which no probe returns status 200, states in which nothing has been
  appended or is about to be, and a thread that is not blocked.\<close>

definition all_fail :: "(nat \<times> probe_result) list \<Rightarrow> bool" where
  "all_fail sched \<longleftrightarrow> list_all (\<lambda>(t, r). r \<noteq> ProbeStatus 200) sched"

definition none_appending :: "vstate \<Rightarrow> bool" where
  "none_appending s \<longleftrightarrow> active_proxies s = [] \<and> list_all (\<lambda>w. \<not> appending w) (workers s)"

definition can_run :: "nat \<Rightarrow> vstate \<Rightarrow> bool" where
  "can_run t s \<longleftrightarrow> t < length (workers s) \<and> (lock s = None \<or> holds_lock (workers s ! t))"

section \<open>The metric client\<close>

text \<open>
  The payload \<^verbatim>\<open>data['data']\<close> of the view endpoint, as far as the booster reads
  it. A field is \<open>None\<close> when the subscript that reads it raises \<^verbatim>\<open>KeyError\<close>:
  \<open>aid\<close>, \<open>cid\<close>, \<open>owner_mid\<close> (\<^verbatim>\<open>info['owner']['mid']\<close>) and \<open>stat_view\<close>
  (\<^verbatim>\<open>info['stat']['view']\<close>). \<open>desc_v2\<close> is \<open>None\<close> when the key is absent or null,
  else the list of its entries, each with its \<^verbatim>\<open>'type'\<close> when it has one.
  The counter, when present, is an integer.
\<close>

record video_info =
  aid :: "int option"
  cid :: "int option"
  owner_mid :: "int option"
  desc_v2 :: "int option list option"
  stat_view :: "int option"

text \<open>The JSON envelope of the reply: \<^verbatim>\<open>data['code']\<close>, \<^verbatim>\<open>data.get('message')\<close>,
  \<^verbatim>\<open>data['data']\<close>.\<close>

record api_envelope =
  env_code :: "int option"
  env_message :: "string option"
  env_data :: "video_info option"

text \<open>
  What \<^verbatim>\<open>requests.get\<close> does in \<^verbatim>\<open>get_video_info\<close>: it raises a
  \<^verbatim>\<open>RequestException\<close> (connection failure, timeout), or returns a response with a
  status code and a body; the body is \<open>None\<close> when \<^verbatim>\<open>response.json()\<close> raises.
\<close>

datatype http_reply = RequestFailed | Reply int "api_envelope option"

text \<open>
  \<^verbatim>\<open>get_video_info\<close>, as a function of what the network answers.
  \<^verbatim>\<open>raise_for_status\<close> raises for the statuses 400 to 599. Every failure leaves as
  a \<^verbatim>\<open>RuntimeError\<close>; of its message the model keeps the part before the text of the
  wrapped exception, and the whole message for a non-zero application code. The
  exception \<^verbatim>\<open>response.json()\<close> raises for a body that is not JSON is a
  \<^verbatim>\<open>RequestException\<close> of the \<^verbatim>\<open>requests\<close> library, so the first handler
  catches it; a missing key goes to the second.
\<close>

definition get_video_info :: "http_reply \<Rightarrow> py_error + video_info" where
  "get_video_info r =
     (case r of
        RequestFailed \<Rightarrow> Inl (RuntimeError ''Failed to get video info'')
      | Reply status body \<Rightarrow>
          if 400 \<le> status \<and> status < 600 then Inl (RuntimeError ''Failed to get video info'')
          else (case body of
             None \<Rightarrow> Inl (RuntimeError ''Failed to get video info'')
           | Some d \<Rightarrow>
              (case env_code d of
                 None \<Rightarrow> Inl (RuntimeError ''Failed to parse video info'')
               | Some c \<Rightarrow>
                  if c \<noteq> 0 then
                    Inl (RuntimeError (''Bilibili API error: '' @
                      (case env_message d of None \<Rightarrow> ''Unknown error'' | Some m \<Rightarrow> m)))
                  else (case env_data d of
                     None \<Rightarrow> Inl (RuntimeError ''Failed to parse video info'')
                   | Some i \<Rightarrow> Inr i))))"

text \<open>What \<^verbatim>\<open>requests.post\<close> does for one click: it raises a
  \<^verbatim>\<open>RequestException\<close>, or returns a response with a status code.\<close>

datatype post_result = PostRaised | PostStatus int

text \<open>The spec speaks of an ``HTTP-success status''. In HTTP these are the status codes
  of the class 2xx; the predicate states that reading of the spec's words, to compare
  it with the test of the source, \<^verbatim>\<open>response.status_code == 200\<close>.\<close>

definition spec_http_success :: "int \<Rightarrow> bool" where
  "spec_http_success c \<longleftrightarrow> 200 \<le> c \<and> c < 300"

text \<open>The form of one click request (\<^verbatim>\<open>click_data\<close>).\<close>

datatype form_value = FormInt int | FormStr string

record click_data =
  f_aid :: int
  f_cid :: int
  f_bvid :: string
  f_part :: string
  f_mid :: int
  f_jsonp :: string
  f_type :: form_value
  f_sub_type :: string

text \<open>
  The dictionary display of \<^verbatim>\<open>click_data\<close> reads the snapshot in this order; the
  first missing key raises \<^verbatim>\<open>KeyError\<close>.
  \<^verbatim>\<open>'type': info['desc_v2'][0]['type'] if info.get('desc_v2') else '1'\<close>
\<close>

definition click_data_of :: "string \<Rightarrow> video_info \<Rightarrow> py_error + click_data" where
  "click_data_of bvid i =
     (case aid i of None \<Rightarrow> Inl (KeyError ''aid'') | Some a \<Rightarrow>
      (case cid i of None \<Rightarrow> Inl (KeyError ''cid'') | Some c \<Rightarrow>
       (case owner_mid i of None \<Rightarrow> Inl (KeyError ''mid'') | Some m \<Rightarrow>
        (case (case desc_v2 i of
                 None \<Rightarrow> Inr (FormStr ''1'')
               | Some [] \<Rightarrow> Inr (FormStr ''1'')
               | Some (None # _) \<Rightarrow> Inl (KeyError ''type'')
               | Some (Some t # _) \<Rightarrow> Inr (FormInt t)) of
           Inl e \<Rightarrow> Inl e
         | Inr ty \<Rightarrow>
             Inr \<lparr> f_aid = a, f_cid = c, f_bvid = bvid, f_part = ''1'', f_mid = m,
                   f_jsonp = ''jsonp'', f_type = ty, f_sub_type = ''0'' \<rparr>))))"

section \<open>The outside world\<close>

text \<open>
  What the dispatch loop does to the outside, in order: the requests of
  \<^verbatim>\<open>get_video_info\<close> (\<open>Poll\<close>), the click requests with their proxy and form
  (\<open>Click\<close>), the one-second sleeps of the countdown with the number of seconds they
  display (\<open>Tick\<close>), the warnings and errors it logs and the final report. The
  progress-bar prints and the informational log lines are left out.
\<close>

record final_report =
  initial_views :: int
  final_views :: int
  total_increase :: int
  hits :: int
  success_rate :: py_float
  duration_seconds :: int
  proxies_used :: nat

datatype event =
    Poll
  | Click string click_data
  | Tick int
  | LogWarning string
  | LogError string
  | FinalStatistics final_report

text \<open>The answers of the outside: the reply to the \<open>k\<close>th view request, the outcome
  of the \<open>k\<close>th click request, the \<open>k\<close>th reading of the clock (microseconds).\<close>

record env =
  fetch_reply :: "nat \<Rightarrow> http_reply"
  post_reply :: "nat \<Rightarrow> post_result"
  clock :: "nat \<Rightarrow> int"

record world =
  fetches :: nat
  posts :: nat
  nows :: nat
  events :: "event list"

definition io_get :: "env \<Rightarrow> world \<Rightarrow> http_reply \<times> world" where
  "io_get e w = (fetch_reply e (fetches w),
                 w\<lparr>fetches := Suc (fetches w), events := events w @ [Poll]\<rparr>)"

definition io_post :: "env \<Rightarrow> string \<Rightarrow> click_data \<Rightarrow> world \<Rightarrow> post_result \<times> world" where
  "io_post e proxy cd w = (post_reply e (posts w),
                 w\<lparr>posts := Suc (posts w), events := events w @ [Click proxy cd]\<rparr>)"

definition io_now :: "env \<Rightarrow> world \<Rightarrow> int \<times> world" where
  "io_now e w = (clock e (nows w), w\<lparr>nows := Suc (nows w)\<rparr>)"

definition io_emit :: "event \<Rightarrow> world \<Rightarrow> world" where
  "io_emit ev w = w\<lparr>events := events w @ [ev]\<rparr>"

text \<open>The text of an exception in an f-string.\<close>

fun error_text :: "py_error \<Rightarrow> string" where
  "error_text (RuntimeError m) = m"
| "error_text (KeyError k) = [CHR 0x27] @ k @ [CHR 0x27]"
| "error_text ZeroDivisionError = ''division by zero''"
| "error_text OverflowError = ''integer division result too large for a float''"

section \<open>The dispatch loop\<close>

text \<open>The state of \<^verbatim>\<open>boost_view_count\<close> inside its loop: \<^verbatim>\<open>self.stats\<close>, the
  locals \<^verbatim>\<open>info\<close> and \<^verbatim>\<open>current_views\<close>, and the outside world.\<close>

record dstate =
  stats :: statistics
  info :: video_info
  current_views :: int
  world :: world

text \<open>How a pass over the proxies ends: \<open>Break\<close> is \<^verbatim>\<open>reach_target = True; break\<close>,
  \<open>Continue\<close> the end of the body (or of the whole pass) with \<^verbatim>\<open>reach_target\<close>
  still false.\<close>

datatype loop_ctl = Continue dstate | Break dstate

text \<open>
  A read of the snapshot with its counter, as all three \<^verbatim>\<open>try\<close> blocks of
  \<^verbatim>\<open>boost_view_count\<close> do it: \<^verbatim>\<open>get_video_info(bvid)\<close>, then
  \<^verbatim>\<open>['stat']['view']\<close> of the result.
\<close>

definition read_snapshot :: "http_reply \<Rightarrow> py_error + video_info \<times> int" where
  "read_snapshot r =
     (case get_video_info r of
        Inl err \<Rightarrow> Inl err
      | Inr i \<Rightarrow>
         (case stat_view i of
            None \<Rightarrow> Inl (KeyError ''view'')
          | Some v \<Rightarrow> Inr (i, v)))"

text \<open>
  The periodic update at the head of the loop body (the inner \<^verbatim>\<open>try\<close>): any exception
  of the read, a missing counter included, is logged as a warning and nothing is
  assigned; otherwise \<^verbatim>\<open>current_views\<close> and \<^verbatim>\<open>info\<close> are replaced, and the pass
  breaks when the counter has reached the target.
\<close>

definition update_view_count :: "env \<Rightarrow> int \<Rightarrow> dstate \<Rightarrow> loop_ctl" where
  "update_view_count e target st =
     (case io_get e (world st) of (r, w1) \<Rightarrow>
       (case read_snapshot r of
          Inl err \<Rightarrow>
            Continue (st\<lparr>world :=
              io_emit (LogWarning (''Failed to update view count: '' @ error_text err)) w1\<rparr>)
        | Inr (updated_info, v) \<Rightarrow>
            (let st2 = st\<lparr>current_views := v, info := updated_info, world := w1\<rparr>
             in if v \<ge> target then Break st2 else Continue st2)))"

text \<open>\<^verbatim>\<open>if i % self.config.update_pbar_count == 0\<close>: the update runs for every
  index the modulus divides, index 0 included.\<close>

definition periodic_update :: "env \<Rightarrow> config \<Rightarrow> int \<Rightarrow> nat \<Rightarrow> dstate \<Rightarrow> loop_ctl" where
  "periodic_update e cfg target i st =
     (if int i mod update_pbar_count cfg = 0 then update_view_count e target st
      else Continue st)"

text \<open>
  The click request of the loop body. A \<^verbatim>\<open>KeyError\<close> of the form is no
  \<^verbatim>\<open>RequestException\<close> and leaves the loop; a \<^verbatim>\<open>RequestException\<close> of the post is
  caught by the handler of the body, and a status other than 200 is a plain failure.
\<close>

definition send_click :: "env \<Rightarrow> string \<Rightarrow> string \<Rightarrow> dstate \<Rightarrow> py_error + dstate" where
  "send_click e bvid proxy st =
     (case click_data_of bvid (info st) of
        Inl err \<Rightarrow> Inl err
      | Inr cd \<Rightarrow>
         (case io_post e proxy cd (world st) of (r, w1) \<Rightarrow>
           (case r of
              PostRaised \<Rightarrow> Inr (st\<lparr>world := w1\<rparr>)
            | PostStatus c \<Rightarrow>
                if c = 200 then
                  Inr (st\<lparr>stats := (stats st)\<lparr>successful_hits :=
                         successful_hits (stats st) + 1\<rparr>, world := w1\<rparr>)
                else Inr (st\<lparr>world := w1\<rparr>))))"

text \<open>
  \<^verbatim>\<open>for i, proxy in enumerate(self.active_proxies)\<close>, from index \<open>i\<close> on.
  \<^verbatim>\<open>i % self.config.update_pbar_count\<close> raises for a modulus of zero, and that
  exception leaves the loop.
\<close>

fun round_loop ::
  "env \<Rightarrow> config \<Rightarrow> string \<Rightarrow> int \<Rightarrow> nat \<Rightarrow> string list \<Rightarrow> dstate \<Rightarrow> py_error + loop_ctl" where
  "round_loop e cfg bvid target i [] st = Inr (Continue st)"
| "round_loop e cfg bvid target i (proxy # rest) st =
     (if update_pbar_count cfg = 0 then Inl ZeroDivisionError
      else
        (case periodic_update e cfg target i st of
           Break st1 \<Rightarrow> Inr (Break st1)
         | Continue st1 \<Rightarrow>
            (case send_click e bvid proxy st1 of
               Inl err \<Rightarrow> Inl err
             | Inr st2 \<Rightarrow> round_loop e cfg bvid target (Suc i) rest st2)))"

text \<open>
  The wait after a pass that did not reach the target. \<open>elapsed\<close> is the difference of
  two clock readings in microseconds, \<^verbatim>\<open>total_seconds()\<close> its value in seconds;
  \<^verbatim>\<open>remain_seconds = int(self.config.round_time - elapsed_time)\<close>, and
  \<^verbatim>\<open>for second in reversed(range(remain_seconds))\<close> displays \<open>second\<close> and sleeps
  one second.
\<close>

definition total_seconds :: "int \<Rightarrow> rat" where
  "total_seconds us = of_int us / 1000000"

definition remain_seconds :: "config \<Rightarrow> int \<Rightarrow> int" where
  "remain_seconds cfg elapsed = py_int (of_int (round_time cfg) - total_seconds elapsed)"

definition wait_ticks :: "config \<Rightarrow> int \<Rightarrow> event list" where
  "wait_ticks cfg elapsed =
     (if remain_seconds cfg elapsed > 0
      then map (\<lambda>second. Tick (int second)) (rev [0..<nat (remain_seconds cfg elapsed)])
      else [])"

definition cooldown :: "config \<Rightarrow> int \<Rightarrow> dstate \<Rightarrow> dstate" where
  "cooldown cfg elapsed st =
     st\<lparr>world := (world st)\<lparr>events := events (world st) @ wait_ticks cfg elapsed\<rparr>\<rparr>"

text \<open>
  \<^verbatim>\<open>while current_views < target\<close>. The loop need not end, so the result is an
  option and \<open>None\<close> stands for a run that never leaves the loop.
\<close>

partial_function (option) dispatch_rounds ::
  "env \<Rightarrow> config \<Rightarrow> string list \<Rightarrow> string \<Rightarrow> int \<Rightarrow> dstate \<Rightarrow> (py_error + dstate) option" where
  "dispatch_rounds e cfg proxies bvid target st =
     (if current_views st < target then
        (case io_now e (world st) of (round_start_time, w1) \<Rightarrow>
          (case round_loop e cfg bvid target 0 proxies (st\<lparr>world := w1\<rparr>) of
             Inl err \<Rightarrow> Some (Inl err)
           | Inr (Break st2) \<Rightarrow> Some (Inr st2)
           | Inr (Continue st2) \<Rightarrow>
              (case io_now e (world st2) of (now, w3) \<Rightarrow>
                 dispatch_rounds e cfg proxies bvid target
                   (cooldown cfg (now - round_start_time) (st2\<lparr>world := w3\<rparr>)))))
      else Some (Inr st))"

declare dispatch_rounds.simps [code]

text \<open>\<^verbatim>\<open>print_final_statistics\<close>: the report it prints.\<close>

definition print_final_statistics ::
  "statistics \<Rightarrow> string list \<Rightarrow> int \<Rightarrow> py_error + event" where
  "print_final_statistics s proxies fv =
     (case calculate_success_rate s (int (length proxies)) of
        Inl err \<Rightarrow> Inl err
      | Inr rate \<Rightarrow>
          Inr (FinalStatistics
            \<lparr> initial_views = initial_view_count s, final_views = fv,
              total_increase = fv - initial_view_count s, hits = successful_hits s,
              success_rate = rate,
              duration_seconds = py_int (total_seconds (get_duration s)),
              proxies_used = length proxies \<rparr>))"

text \<open>
  \<^verbatim>\<open>boost_view_count\<close>. The first read is inside a \<^verbatim>\<open>try\<close> whose handler logs an
  error and returns; the function then returns normally, with the statistics and the
  world as they are. The final read is best effort.
\<close>

definition boost_view_count ::
  "env \<Rightarrow> config \<Rightarrow> string list \<Rightarrow> string \<Rightarrow> int \<Rightarrow> statistics \<Rightarrow> world
     \<Rightarrow> (py_error + statistics \<times> world) option" where
  "boost_view_count e cfg proxies bvid target s w =
     (case io_get e w of (r, w1) \<Rightarrow>
       (case read_snapshot r of
          Inl err \<Rightarrow>
            Some (Inr (s, io_emit (LogError (''Failed to get initial view count: '' @
                                     error_text err)) w1))
        | Inr (i, v) \<Rightarrow>
           (case io_now e w1 of (t0, w2) \<Rightarrow>
             (case dispatch_rounds e cfg proxies bvid target
                     \<lparr> stats = s\<lparr>initial_view_count := v, start_time := Some t0\<rparr>,
                       info = i, current_views = v, world = w2 \<rparr> of
                None \<Rightarrow> None
              | Some (Inl err) \<Rightarrow> Some (Inl err)
              | Some (Inr st) \<Rightarrow>
                 (case io_now e (world st) of (t1, w3) \<Rightarrow>
                   (case io_get e w3 of (r2, w4) \<Rightarrow>
                     (let s' = (stats st)\<lparr>end_time := Some t1\<rparr>;
                          fv = (case read_snapshot r2 of
                                  Inl err \<Rightarrow> current_views st
                                | Inr (fi, v2) \<Rightarrow> v2)
                      in case print_final_statistics s' proxies fv of
                           Inl err \<Rightarrow> Some (Inl err)
                         | Inr ev \<Rightarrow> Some (Inr (s', io_emit ev w4)))))))))"

text \<open>
  \<^verbatim>\<open>run\<close>: the three steps, the validator under a schedule. \<^verbatim>\<open>get_proxies\<close> is
  an outside collaborator, so what it returns or raises is a parameter. The handler of
  \<^verbatim>\<open>run\<close> logs and raises again, so an exception of a step is the result.
\<close>

definition run ::
  "env \<Rightarrow> config \<Rightarrow> py_error + string list \<Rightarrow> (nat \<times> probe_result) list \<Rightarrow> string \<Rightarrow> int
     \<Rightarrow> statistics \<Rightarrow> world \<Rightarrow> (py_error + statistics \<times> world) option" where
  "run e cfg got sched bvid target s w =
     (case got of
        Inl err \<Rightarrow> Some (Inl err)
      | Inr total_proxies \<Rightarrow>
         (case filter_proxies cfg total_proxies sched of
            None \<Rightarrow> None
          | Some (Inl err) \<Rightarrow> Some (Inl err)
          | Some (Inr active) \<Rightarrow> boost_view_count e cfg active bvid target s w))"

text \<open>
  \<^verbatim>\<open>main\<close>, from the resolved configuration on: the exit status of the process. The
  two checks of the arguments and every exception of \<^verbatim>\<open>run\<close> end in
  \<^verbatim>\<open>sys.exit(1)\<close>; when \<^verbatim>\<open>run\<close> returns, \<^verbatim>\<open>main\<close> returns and the status is 0.
  The booster starts with a fresh \<^verbatim>\<open>Statistics()\<close>. An interrupt from the keyboard is
  left out.
\<close>

definition main ::
  "env \<Rightarrow> config \<Rightarrow> py_error + string list \<Rightarrow> (nat \<times> probe_result) list \<Rightarrow> string \<Rightarrow> int
     \<Rightarrow> world \<Rightarrow> int option" where
  "main e cfg got sched bvid target w =
     (if target \<le> 0 then Some 1
      else if take 2 bvid \<noteq> ''BV'' then Some 1
      else (case run e cfg got sched bvid target Statistics_init w of
              None \<Rightarrow> None
            | Some (Inl err) \<Rightarrow> Some 1
            | Some (Inr res) \<Rightarrow> Some 0))"

section \<open>Concrete inputs\<close>

text \<open>Small inputs on which the theorems below are instantiated. The payload is the one
  of the repository's test of \<^verbatim>\<open>get_video_info\<close>.\<close>

definition example_info :: "int \<Rightarrow> video_info" where
  "example_info v = \<lparr> aid = Some 123456, cid = Some 789012, owner_mid = Some 345678,
     desc_v2 = None, stat_view = Some v \<rparr>"

definition ok_reply :: "int \<Rightarrow> http_reply" where
  "ok_reply v = Reply 200 (Some \<lparr> env_code = Some 0, env_message = None,
     env_data = Some (example_info v) \<rparr>)"

definition example_env :: env where
  "example_env = \<lparr> fetch_reply = (\<lambda>k. if k = 0 then ok_reply 950 else ok_reply 1005),
     post_reply = (\<lambda>k. if k = 0 then PostStatus 200 else PostRaised),
     clock = (\<lambda>k. int k * 40000000) \<rparr>"

definition example_world :: world where
  "example_world = \<lparr> fetches = 0, posts = 0, nows = 0, events = [] \<rparr>"

definition example_state :: dstate where
  "example_state = \<lparr> stats = Statistics_init\<lparr>initial_view_count := 950\<rparr>,
     info = example_info 950, current_views = 950, world = example_world \<rparr>"

definition example_config :: config where
  "example_config = Config_init\<lparr>update_pbar_count := 2\<rparr>"

lemmas example_defs = example_info_def ok_reply_def example_env_def example_world_def
  example_state_def example_config_def Config_init_def Statistics_init_def

lemmas dispatch_defs = periodic_update_def update_view_count_def send_click_def
  read_snapshot_def get_video_info_def click_data_of_def io_get_def io_post_def io_now_def
  io_emit_def

definition failing_env :: "http_reply \<Rightarrow> env" where
  "failing_env r = \<lparr> fetch_reply = (\<lambda>k. r), post_reply = (\<lambda>k. PostStatus 200),
     clock = (\<lambda>k. int k) \<rparr>"

definition no_content_env :: env where
  "no_content_env = \<lparr> fetch_reply = (\<lambda>k. ok_reply 950), post_reply = (\<lambda>k. PostStatus 204),
     clock = (\<lambda>k. int k) \<rparr>"

definition two_thread_config :: config where
  "two_thread_config = Config_init\<lparr>thread_num := 2\<rparr>"

definition live_sched :: "(nat \<times> probe_result) list" where
  "live_sched = replicate 5 (0, ProbeStatus 200) @ replicate 5 (1, ProbeStatus 200)"

definition slow_env :: env where
  "slow_env = \<lparr> fetch_reply = (\<lambda>k. ok_reply 950), post_reply = (\<lambda>k. PostStatus 200),
     clock = (\<lambda>k. int k * 40000000) \<rparr>"




section \<open>Properties of the success rate\<close>

lemma flog2_bounds:
  assumes "0 < x"
  shows "2 powi flog2 x \<le> x" and "x < 2 powi (flog2 x + 1)"
proof -
  obtain p q where pq: "quotient_of x = (p, q)" by (cases "quotient_of x")
  then have q: "0 < q" by (rule quotient_of_denom_pos)
  have x: "x = of_int p / of_int q" using pq by (rule quotient_of_div)
  with assms q have p: "0 < p" by (simp add: zero_less_divide_iff)
  define d where "d = bitlen p - bitlen q"
  have bp: "(2::rat) powi (bitlen p - 1) \<le> of_int p" "of_int p < (2::rat) powi bitlen p"
  proof -
    from bitlen_bounds [OF p] have "2 ^ nat (bitlen p - 1) \<le> p" "p < 2 ^ nat (bitlen p)"
      by simp_all
    then have "(of_int (2 ^ nat (bitlen p - 1)) :: rat) \<le> of_int p"
      "(of_int p :: rat) < of_int (2 ^ nat (bitlen p))"
      by (simp_all only: of_int_le_iff of_int_less_iff)
    moreover have "1 \<le> bitlen p" using p by (auto simp: bitlen_alt_def)
    ultimately show "(2::rat) powi (bitlen p - 1) \<le> of_int p" "of_int p < (2::rat) powi bitlen p"
      by (simp_all add: power_int_def)
  qed
  have bq: "(2::rat) powi (bitlen q - 1) \<le> of_int q" "of_int q < (2::rat) powi bitlen q"
  proof -
    from bitlen_bounds [OF q] have "2 ^ nat (bitlen q - 1) \<le> q" "q < 2 ^ nat (bitlen q)"
      by simp_all
    then have "(of_int (2 ^ nat (bitlen q - 1)) :: rat) \<le> of_int q"
      "(of_int q :: rat) < of_int (2 ^ nat (bitlen q))"
      by (simp_all only: of_int_le_iff of_int_less_iff)
    moreover have "1 \<le> bitlen q" using q by (auto simp: bitlen_alt_def)
    ultimately show "(2::rat) powi (bitlen q - 1) \<le> of_int q" "of_int q < (2::rat) powi bitlen q"
      by (simp_all add: power_int_def)
  qed
  have qpos: "(0::rat) < of_int q" using q by simp
  have lo: "(2::rat) powi (d - 1) < x"
  proof -
    have "(2::rat) powi (d - 1) * of_int q < 2 powi (d - 1) * 2 powi bitlen q"
      using bq(2) by (simp add: mult_strict_left_mono)
    also have "\<dots> = 2 powi (bitlen p - 1)"
      by (simp add: d_def power_int_add [symmetric])
    also have "\<dots> \<le> of_int p" by (rule bp(1))
    finally show ?thesis using qpos by (simp add: x pos_less_divide_eq)
  qed
  have hi: "x < (2::rat) powi (d + 1)"
  proof -
    have "of_int p < (2::rat) powi bitlen p" by (rule bp(2))
    also have "\<dots> = 2 powi (d + 1) * 2 powi (bitlen q - 1)"
      by (simp add: d_def power_int_add [symmetric])
    also have "\<dots> \<le> 2 powi (d + 1) * of_int q"
      using bq(1) by (simp add: mult_left_mono)
    finally show ?thesis using qpos by (simp add: x pos_divide_less_eq)
  qed
  have f: "flog2 x = (if 2 powi d \<le> x then d else d - 1)"
    by (simp add: flog2_def pq d_def Let_def)
  show "2 powi flog2 x \<le> x" using lo by (simp add: f)
  show "x < 2 powi (flog2 x + 1)" using hi by (auto simp add: f)
qed

lemma round_half_even_err: "\<bar>of_int (round_half_even y) - y\<bar> \<le> 1 / 2"
proof -
  have "of_int \<lfloor>y\<rfloor> \<le> y" "y < of_int \<lfloor>y\<rfloor> + 1" by linarith+
  then show ?thesis
    by (auto simp add: round_half_even_def Let_def) 
qed

lemma round_double_err:
  assumes "0 < x" and "- 1022 \<le> flog2 x"
  shows "\<bar>round_double x - x\<bar> \<le> x / 2 ^ 53"
proof -
  define e where "e = flog2 x - 52"
  have ue: "ulp_exponent x = e" using assms by (simp add: ulp_exponent_def e_def)
  have pe: "(0::rat) < 2 powi e" by simp
  let ?m = "x / 2 powi e"
  have rd: "round_double x = of_int (round_half_even ?m) * 2 powi e"
    using assms(1) by (simp add: round_double_def ue)
  have "\<bar>round_double x - x\<bar> = \<bar>of_int (round_half_even ?m) - ?m\<bar> * 2 powi e"
  proof -
    have "round_double x - x = (of_int (round_half_even ?m) - ?m) * 2 powi e"
      using pe by (simp add: rd left_diff_distrib)
    then show ?thesis by (simp add: abs_mult)
  qed
  also have "\<dots> \<le> 1 / 2 * 2 powi e"
    using round_half_even_err [of ?m] pe by (simp add: mult_right_mono)
  also have "\<dots> = 2 powi flog2 x / 2 ^ 53"
  proof -
    have "(2::rat) powi (e + 52) = 2 powi e * 2 powi 52"
      by (rule power_int_add) simp
    moreover have "e + 52 = flog2 x" by (simp add: e_def)
    ultimately have "(2::rat) powi flog2 x = 2 powi e * 2 ^ 52" by simp
    then show ?thesis by simp
  qed
  also have "\<dots> \<le> x / 2 ^ 53"
    using flog2_bounds(1) [OF assms(1)] by (simp add: divide_right_mono)
  finally show ?thesis .
qed

lemma flog2_lower:
  assumes "2 powi k \<le> x"
  shows "k \<le> flog2 x"
proof -
  have "(0::rat) < 2 powi k" by simp
  with assms have x: "0 < x" by linarith
  from flog2_bounds(2) [OF x] assms have \<open>(2::rat) powi k < 2 powi (flog2 x + 1)\<close>
    by linarith
  have "k < flog2 x + 1"
  proof (rule ccontr)
    assume "\<not> k < flog2 x + 1"
    then have "flog2 x + 1 \<le> k" by simp
    then have "(2::rat) powi (flog2 x + 1) \<le> 2 powi k"
      by (rule power_int_increasing) simp
    with \<open>(2::rat) powi k < 2 powi (flog2 x + 1)\<close> show False by simp
  qed
  then show ?thesis by simp
qed

lemma double_max_big: "2 ^ 1010 \<le> double_max"
  by (simp add: double_max_def)

lemma round_double_pos:
  assumes "2 powi (- 1000) \<le> x" and "x < 2 ^ 1009"
  shows "\<bar>round_double x - x\<bar> \<le> x / 2 ^ 53" and "0 < round_double x"
    and "float_of_rat x = Finite (round_double x)"
proof -
  have "(0::rat) < 2 powi (- 1000)" by simp
  with assms(1) have x: "0 < x" by linarith
  have "- 1000 \<le> flog2 x" by (rule flog2_lower [OF assms(1)])
  then have "- 1022 \<le> flog2 x" by simp
  from round_double_err [OF x this] show e: "\<bar>round_double x - x\<bar> \<le> x / 2 ^ 53" .
  have half: "x / 2 ^ 53 \<le> x / 2" using x by (simp add: field_simps)
  from e half x show p: "0 < round_double x" by linarith
  from e half have "round_double x \<le> 2 * x" by linarith
  with assms(2) have "round_double x < 2 ^ 1010" by simp
  with double_max_big have "\<not> double_max < round_double x" by linarith
  moreover have "(0::rat) \<le> double_max" by (simp add: double_max_def)
  with p have "\<not> round_double x < - double_max" by linarith
  ultimately show "float_of_rat x = Finite (round_double x)"
    by (simp add: float_of_rat_def Let_def)
qed

lemma success_rate_error:
  assumes "0 < n" "0 < h" "h < 2 ^ 1000" "n < 2 ^ 1000"
  shows "\<exists>r. calculate_success_rate (s\<lparr>successful_hits := h\<rparr>) n = Inr (Finite r)
           \<and> \<bar>r - 100 * of_int h / of_int n\<bar> \<le> (100 * of_int h / of_int n) / 2 ^ 51"
proof -
  define x :: rat where "x = of_int h / of_int n"
  have n: "(0::rat) < of_int n" and h: "(1::rat) \<le> of_int h" using assms by simp_all
  have nlt: "(of_int n :: rat) < 2 ^ 1000" and hlt: "(of_int h :: rat) < 2 ^ 1000"
    using assms(3,4) of_int_less_iff [where ?'a = rat] by (metis of_int_numeral of_int_power)+
  have xlo: "2 powi (- 1000) \<le> x"
  proof -
    have "(2::rat) powi (- 1000) = 1 / 2 ^ 1000" by (simp add: power_int_minus_divide)
    also have "\<dots> \<le> 1 / of_int n" using n nlt by (simp add: frac_le)
    also have "\<dots> \<le> x" using h n by (simp add: x_def divide_right_mono)
    finally show ?thesis .
  qed
  have xhi: "x < 2 ^ 1000"
  proof -
    have "1 \<le> n" using assms(1) by simp
    then have "x \<le> of_int h" using n h by (simp add: x_def pos_divide_le_eq mult_le_cancel_left1)
    with hlt show ?thesis by linarith
  qed
  have xpos: "0 < x" using n h by (simp add: x_def)
  define y1 where "y1 = round_double x"
  have "(2::rat) ^ 1000 \<le> 2 ^ 1009" by (rule power_increasing) simp_all
  with xhi have "x < 2 ^ 1009" by linarith
  from round_double_pos [OF xlo this]
  have e1: "\<bar>y1 - x\<bar> \<le> x / 2 ^ 53" and p1: "0 < y1" and f1: "float_of_rat x = Finite y1"
    by (simp_all add: y1_def)
  have half: "x / 2 ^ 53 \<le> x / 2" using xpos by (simp add: field_simps)
  have y1lo: "x / 2 \<le> y1" and y1hi: "y1 \<le> 2 * x" using e1 half by linarith+
  define z where "z = y1 * 100"
  have zlo: "2 powi (- 1000) \<le> z" using xlo y1lo xpos by (simp add: z_def)
  have zhi: "z \<le> 200 * x" using y1hi by (simp add: z_def)
  have "z < 2 ^ 1009"
  proof -
    have "200 * x < 2 ^ 8 * 2 ^ 1000" using xhi xpos by (simp add: mult_strict_mono)
    also have "\<dots> \<le> (2::rat) ^ 1009" by (simp flip: power_add)
    finally show ?thesis using zhi by linarith
  qed
  from round_double_pos [OF zlo this]
  have e2: "\<bar>round_double z - z\<bar> \<le> z / 2 ^ 53" and f2: "float_of_rat z = Finite (round_double z)"
    by simp_all
  have c: "calculate_success_rate (s\<lparr>successful_hits := h\<rparr>) n = Inr (Finite (round_double z))"
    using assms(1) f1 f2 by (simp add: calculate_success_rate_def py_truediv_def x_def [symmetric] z_def)
  have "\<bar>round_double z - 100 * x\<bar> \<le> \<bar>round_double z - z\<bar> + \<bar>z - 100 * x\<bar>" by linarith
  also have "\<bar>z - 100 * x\<bar> = 100 * \<bar>y1 - x\<bar>" by (simp add: z_def abs_if)
  also have "\<bar>round_double z - z\<bar> + 100 * \<bar>y1 - x\<bar> \<le> z / 2 ^ 53 + 100 * (x / 2 ^ 53)"
    by (intro add_mono mult_left_mono e1 e2) simp
  also have "\<dots> \<le> 200 * x / 2 ^ 53 + 100 * x / 2 ^ 53"
    using zhi by (simp add: divide_right_mono)
  also have "\<dots> \<le> (100 * x) / 2 ^ 51" using xpos by (simp add: field_simps)
  finally have "\<bar>round_double z - 100 * x\<bar> \<le> (100 * x) / 2 ^ 51" .
  with c show ?thesis by (auto simp add: x_def)
qed

lemma float_of_rat_finite:
  "\<bar>round_double x\<bar> \<le> 2 ^ 1010 \<Longrightarrow> float_of_rat x = Finite (round_double x)"
  using double_max_big by (auto simp add: float_of_rat_def Let_def)

text \<open>
  C9, as stated, fails: the quotient and the product are each rounded to a float. For
  7 hits out of 25 the function returns \<open>7881299347898369 / 2 ^ 48\<close>, the float
  Python prints as \<^verbatim>\<open>28.000000000000004\<close>, and not \<open>100 * 7 / 25 = 28\<close>.
\<close>

theorem C9_counterexample:
  "calculate_success_rate (Statistics_init\<lparr>successful_hits := 7\<rparr>) 25
     = Inr (Finite (7881299347898369 / 2 ^ 48))
   \<and> (7881299347898369 / 2 ^ 48 :: rat) \<noteq> 100 * 7 / 25"
proof -
  have a: "round_double (7 / 25) = 1261007895663739 / 2 ^ 52" by code_simp
  have b: "round_double (1261007895663739 / 2 ^ 52 * 100) = 7881299347898369 / 2 ^ 48"
    by code_simp
  have fa: "float_of_rat (7 / 25) = Finite (1261007895663739 / 2 ^ 52)"
    using float_of_rat_finite [of "7 / 25"] unfolding a by simp
  have fb: "float_of_rat (1261007895663739 / 2 ^ 52 * 100) = Finite (7881299347898369 / 2 ^ 48)"
    using float_of_rat_finite [of "1261007895663739 / 2 ^ 52 * 100"] unfolding b by simp
  show ?thesis
    using fa fb by (simp add: calculate_success_rate_def py_truediv_def Statistics_init_def)
qed

text \<open>
  C9, amended. For every hit count \<open>h\<close> and every total \<open>n\<close>,
  \<^verbatim>\<open>calculate_success_rate\<close> never raises \<^verbatim>\<open>ZeroDivisionError\<close>; it returns \<open>0.0\<close>
  when \<open>n \<le> 0\<close>, in particular when \<open>n = 0\<close>, and when there is no hit; and for
  \<open>n > 0\<close> and \<open>h > 0\<close> (both below \<open>2 ^ 1000\<close>, so that nothing overflows or
  underflows) it returns a finite float that equals \<open>100 * h / n\<close> up to the rounding of
  the division and of the multiplication: a relative error of at most \<open>2 ^ - 51\<close>.
\<close>

theorem C9_success_rate_rounded:
  "calculate_success_rate (s\<lparr>successful_hits := h\<rparr>) n \<noteq> Inl ZeroDivisionError
   \<and> (n \<le> 0 \<longrightarrow> calculate_success_rate (s\<lparr>successful_hits := h\<rparr>) n = Inr (Finite 0))
   \<and> (0 < n \<and> h = 0 \<longrightarrow>
        calculate_success_rate (s\<lparr>successful_hits := h\<rparr>) n = Inr (Finite 0))
   \<and> (0 < n \<and> 0 < h \<and> h < 2 ^ 1000 \<and> n < 2 ^ 1000 \<longrightarrow>
        (\<exists>r. calculate_success_rate (s\<lparr>successful_hits := h\<rparr>) n = Inr (Finite r)
           \<and> \<bar>r - 100 * of_int h / of_int n\<bar> \<le> (100 * of_int h / of_int n) / 2 ^ 51))"
proof (intro conjI impI)
  show "calculate_success_rate (s\<lparr>successful_hits := h\<rparr>) n \<noteq> Inl ZeroDivisionError"
    by (simp add: calculate_success_rate_def py_truediv_def split: py_float.split)
  show "calculate_success_rate (s\<lparr>successful_hits := h\<rparr>) n = Inr (Finite 0)" if "n \<le> 0"
    using that by (simp add: calculate_success_rate_def)
  show "calculate_success_rate (s\<lparr>successful_hits := h\<rparr>) n = Inr (Finite 0)"
    if "0 < n \<and> h = 0"
  proof -
    have z: "float_of_rat 0 = Finite 0"
      using float_of_rat_finite [of 0] by (simp add: round_double_def)
    show ?thesis
      using that z by (simp add: calculate_success_rate_def py_truediv_def)
  qed
  show "\<exists>r. calculate_success_rate (s\<lparr>successful_hits := h\<rparr>) n = Inr (Finite r)
           \<and> \<bar>r - 100 * of_int h / of_int n\<bar> \<le> (100 * of_int h / of_int n) / 2 ^ 51"
    if "0 < n \<and> 0 < h \<and> h < 2 ^ 1000 \<and> n < 2 ^ 1000"
    using that by (intro success_rate_error) simp_all
qed

theorem C9_success_rate_rounded_witness:
  "calculate_success_rate (Statistics_init\<lparr>successful_hits := 50\<rparr>) 0 = Inr (Finite 0)
   \<and> (0::int) < 100 \<and> (0::int) < 50 \<and> (50::int) < 2 ^ 1000 \<and> (100::int) < 2 ^ 1000
   \<and> (\<exists>r. calculate_success_rate (Statistics_init\<lparr>successful_hits := 50\<rparr>) 100
              = Inr (Finite r)
         \<and> \<bar>r - 100 * of_int 50 / of_int 100\<bar> \<le> (100 * of_int 50 / of_int 100) / 2 ^ 51)"
proof -
  have h: "(0::int) < 100 \<and> (0::int) < 50 \<and> (50::int) < 2 ^ 1000 \<and> (100::int) < 2 ^ 1000"
    by simp
  have z: "(0::int) \<le> 0" by simp
  from C9_success_rate_rounded [where s = Statistics_init and h = 50 and n = 0] z
  have a: "calculate_success_rate (Statistics_init\<lparr>successful_hits := 50\<rparr>) 0 = Inr (Finite 0)"
    by blast
  from C9_success_rate_rounded [where s = Statistics_init and h = 50 and n = 100] h
  have b: "\<exists>r. calculate_success_rate (Statistics_init\<lparr>successful_hits := 50\<rparr>) 100
              = Inr (Finite r)
         \<and> \<bar>r - 100 * of_int 50 / of_int 100\<bar> \<le> (100 * of_int 50 / of_int 100) / 2 ^ 51"
    by blast
  from a h b show ?thesis by blast
qed

section \<open>Properties of the partition\<close>

lemma py_slice_nat:
  "py_slice xs (int a) (int b) = take (b - a) (drop a xs)"
proof -
  let ?n = "length xs"
  have "py_slice xs (int a) (int b) = take (min ?n b - min ?n a) (drop (min ?n a) xs)"
    by (simp add: py_slice_def Let_def nat_diff_distrib' min_def)
  also have "\<dots> = take (b - a) (drop a xs)"
    by (cases "a \<le> ?n"; cases "b \<le> ?n") (simp_all add: min_def)
  finally show ?thesis .
qed

lemma thread_slice_inner:
  assumes "0 < w" "Suc i < w"
  shows "thread_slice (int w) xs i = take (length xs div w) (drop (i * (length xs div w)) xs)"
proof -
  have d: "int (length xs) div int w = int (length xs div w)"
    by (simp add: zdiv_int)
  have "thread_slice (int w) xs i =
      py_slice xs (int (i * (length xs div w))) (int (i * (length xs div w) + length xs div w))"
    using assms by (simp add: thread_slice_def Let_def d)
  then show ?thesis by (simp only: py_slice_nat) simp
qed

lemma thread_slice_last:
  assumes "0 < w" "Suc i = w"
  shows "thread_slice (int w) xs i = drop (i * (length xs div w)) xs"
proof -
  have d: "int (length xs) div int w = int (length xs div w)"
    by (simp add: zdiv_int)
  have "thread_slice (int w) xs i = py_slice xs (int (i * (length xs div w))) (int (length xs))"
    using assms by (auto simp add: thread_slice_def Let_def d)
  then show ?thesis by (simp only: py_slice_nat) simp
qed

lemma concat_equal_chunks:
  "concat (map (\<lambda>i. take n (drop (i * n) xs)) [0..<m]) = take (m * n) xs"
proof (induction m)
  case 0
  show ?case by simp
next
  case (Suc m)
  have "take (m * n) xs @ take n (drop (m * n) xs) = take (m * n + n) xs"
    by (simp add: take_add)
  with Suc show ?case by (simp add: add.commute)
qed

lemma thread_slices_pos:
  assumes "0 < w"
  shows "map (thread_slice (int w) xs) [0..<w] =
         map (\<lambda>i. take (length xs div w) (drop (i * (length xs div w)) xs)) [0..<w - 1]
         @ [drop ((w - 1) * (length xs div w)) xs]"
proof -
  obtain v where w: "w = Suc v" using assms by (cases w) auto
  have "map (thread_slice (int w) xs) [0..<v] =
        map (\<lambda>i. take (length xs div w) (drop (i * (length xs div w)) xs)) [0..<v]"
    using thread_slice_inner [of w _ xs] w by (intro map_cong) auto
  moreover have "thread_slice (int w) xs v = drop (v * (length xs div w)) xs"
    by (rule thread_slice_last) (simp_all add: w)
  ultimately show ?thesis by (simp add: w)
qed

text \<open>
  C2. For a candidate list of size \<open>k\<close> and a worker count \<open>w\<close> with \<open>1 \<le> w \<le> k\<close>,
  the partition has \<open>w\<close> slices, each of the first \<open>w - 1\<close> of size \<open>k div w\<close>, the last
  one with the rest; the slices, in order, concatenate to the candidate list itself
  (no candidate duplicated or dropped), and their sizes sum to \<open>k\<close>.
\<close>

theorem C2_partition:
  assumes "1 \<le> w" and "w \<le> int (length total_proxies)"
  shows "\<exists>ss. thread_slices w total_proxies = Inr ss
           \<and> length ss = nat w
           \<and> concat ss = total_proxies
           \<and> sum_list (map length ss) = length total_proxies
           \<and> list_all (\<lambda>sl. length sl = length total_proxies div nat w) (butlast ss)
           \<and> length (last ss) = length total_proxies - (nat w - 1) * (length total_proxies div nat w)"
proof -
  define v where "v = nat w"
  define q where "q = length total_proxies div v"
  have v: "0 < v" "w = int v" "v \<le> length total_proxies"
    using assms by (simp_all add: v_def)
  let ?ss = "map (thread_slice w total_proxies) [0..<v]"
  have ss: "?ss = map (\<lambda>i. take q (drop (i * q) total_proxies)) [0..<v - 1]
                  @ [drop ((v - 1) * q) total_proxies]"
    using thread_slices_pos [OF v(1), of total_proxies] by (simp add: v(2) q_def)
  have bound: "(v - 1) * q + q \<le> length total_proxies"
  proof -
    have "(v - 1) * q + q = v * q" using v(1) by (cases v) simp_all
    also have "\<dots> \<le> length total_proxies" by (simp add: q_def)
    finally show ?thesis .
  qed
  have 1: "thread_slices w total_proxies = Inr ?ss"
    using assms by (simp add: thread_slices_def v_def)
  have 2: "length ?ss = nat w" by (simp add: v_def)
  have 3: "concat ?ss = total_proxies"
    by (simp only: ss concat_append concat_equal_chunks) simp
  have 4: "sum_list (map length ?ss) = length total_proxies"
    using 3 by (metis length_concat)
  have 5: "list_all (\<lambda>sl. length sl = q) (butlast ?ss)"
  proof -
    have "\<And>i. i < v - 1 \<Longrightarrow> q \<le> length total_proxies - i * q"
    proof -
      fix i assume "i < v - 1"
      then have "i * q \<le> (v - 1) * q" by simp
      with bound show "q \<le> length total_proxies - i * q" by linarith
    qed
    then show ?thesis
      by (simp only: ss butlast_snoc) (simp add: list_all_iff)
  qed
  have 6: "length (last ?ss) = length total_proxies - (v - 1) * q"
    by (simp only: ss last_snoc) simp
  from 1 2 3 4 5 6 show ?thesis
    unfolding v_def [symmetric] q_def [symmetric] by blast
qed

theorem C2_partition_witness:
  "(1::int) \<le> 2 \<and> 2 \<le> int (length [''a'', ''b'', ''c'', ''d'', ''e''])
   \<and> thread_slices 2 [''a'', ''b'', ''c'', ''d'', ''e'']
       = Inr [[''a'', ''b''], [''c'', ''d'', ''e'']]
   \<and> (\<exists>ss. thread_slices 2 [''a'', ''b'', ''c'', ''d'', ''e''] = Inr ss
        \<and> concat ss = [''a'', ''b'', ''c'', ''d'', ''e'']
        \<and> sum_list (map length ss) = 5)"
proof -
  have h1: "(1::int) \<le> 2" by simp
  have h2: "(2::int) \<le> int (length [''a'', ''b'', ''c'', ''d'', ''e''])" by simp
  have ev: "thread_slices 2 [''a'', ''b'', ''c'', ''d'', ''e'']
       = Inr [[''a'', ''b''], [''c'', ''d'', ''e'']]"
    by code_simp
  from C2_partition [OF h1 h2] obtain ss where
    "thread_slices 2 [''a'', ''b'', ''c'', ''d'', ''e''] = Inr ss"
    "concat ss = [''a'', ''b'', ''c'', ''d'', ''e'']"
    "sum_list (map length ss) = length [''a'', ''b'', ''c'', ''d'', ''e'']"
    by blast
  then show ?thesis using h1 h2 ev by simp
qed

section \<open>Properties of the dispatch loop\<close>

lemma update_view_count_reached:
  assumes "read_snapshot (fetch_reply e (fetches (world st))) = Inr (upd, v)" and "target \<le> v"
  shows "update_view_count e target st =
           Break (st\<lparr>current_views := v, info := upd, world := snd (io_get e (world st))\<rparr>)"
  using assms by (simp add: update_view_count_def io_get_def)


lemma round_loop_append:
  "round_loop e cfg bvid target i (pre @ suf) st =
     (case round_loop e cfg bvid target i pre st of
        Inr (Continue st1) \<Rightarrow> round_loop e cfg bvid target (i + length pre) suf st1
      | r \<Rightarrow> r)"
proof (induction pre arbitrary: i st)
  case Nil
  show ?case by simp
next
  case (Cons p pre)
  show ?case
    by (simp add: Cons.IH split: loop_ctl.split sum.split)
qed

lemma dispatch_rounds_break:
  assumes "current_views st < target"
    and "round_loop e cfg bvid target 0 proxies (st\<lparr>world := snd (io_now e (world st))\<rparr>) = Inr (Break st2)"
  shows "dispatch_rounds e cfg proxies bvid target st = Some (Inr st2)"
  using assms by (subst dispatch_rounds.simps) (simp add: io_now_def)

lemma dispatch_rounds_continue:
  assumes "current_views st < target"
    and "round_loop e cfg bvid target 0 proxies (st\<lparr>world := snd (io_now e (world st))\<rparr>) = Inr (Continue st2)"
  shows "dispatch_rounds e cfg proxies bvid target st =
         dispatch_rounds e cfg proxies bvid target
           (cooldown cfg (clock e (nows (world st2)) - clock e (nows (world st)))
              (st2\<lparr>world := snd (io_now e (world st2))\<rparr>))"
  using assms by (subst dispatch_rounds.simps) (simp add: io_now_def)

text \<open>
  C1. In a round of the dispatch loop (entered because the counter is below the target),
  let the pass have come through the proxies \<open>pre\<close> without breaking, and let the next
  index be one the update modulus divides. If the re-fetch made there succeeds with a
  counter \<open>v\<close> at or above the target, the pass breaks at once: the round ends in
  \<open>Break\<close>, the only thing done after the prefix is that one poll (no click request for
  the proxy at hand or for any later one), and the outer loop returns with that state.
\<close>

theorem C1_poll_reaches_target:
  assumes "update_pbar_count cfg \<noteq> 0"
    and "current_views st < target"
    and "round_loop e cfg bvid target 0 pre (st\<lparr>world := snd (io_now e (world st))\<rparr>) = Inr (Continue st1)"
    and "int (length pre) mod update_pbar_count cfg = 0"
    and "read_snapshot (fetch_reply e (fetches (world st1))) = Inr (upd, v)"
    and "target \<le> v"
  shows "\<exists>st2. round_loop e cfg bvid target 0 (pre @ proxy # rest)
                 (st\<lparr>world := snd (io_now e (world st))\<rparr>) = Inr (Break st2)
           \<and> dispatch_rounds e cfg (pre @ proxy # rest) bvid target st = Some (Inr st2)
           \<and> current_views st2 = v \<and> info st2 = upd \<and> stats st2 = stats st1
           \<and> events (world st2) = events (world st1) @ [Poll]
           \<and> posts (world st2) = posts (world st1)"
proof -
  let ?st0 = "st\<lparr>world := snd (io_now e (world st))\<rparr>"
  let ?st2 = "st1\<lparr>current_views := v, info := upd, world := snd (io_get e (world st1))\<rparr>"
  have body: "round_loop e cfg bvid target (length pre) (proxy # rest) st1 = Inr (Break ?st2)"
    using assms(1,4) update_view_count_reached [OF assms(5,6)]
    by (simp add: periodic_update_def)
  have r: "round_loop e cfg bvid target 0 (pre @ proxy # rest) ?st0 = Inr (Break ?st2)"
    by (simp only: round_loop_append assms(3) sum.case loop_ctl.case add_0 body)
  have d: "dispatch_rounds e cfg (pre @ proxy # rest) bvid target st = Some (Inr ?st2)"
    by (rule dispatch_rounds_break [OF assms(2) r])
  show ?thesis
    using r d by (simp add: io_get_def)
qed

theorem C1_poll_reaches_target_witness:
  "update_pbar_count example_config \<noteq> 0
   \<and> current_views example_state < 1000
   \<and> int (length [''p0'', ''p1'']) mod update_pbar_count example_config = 0
   \<and> (\<exists>st2. dispatch_rounds example_env example_config ([''p0'', ''p1''] @ ''p2'' # [''p3''])
                 ''BV1'' 1000 example_state = Some (Inr st2)
          \<and> current_views st2 = 1005 \<and> posts (world st2) = 2)"
proof -
  have h1: "update_pbar_count example_config \<noteq> 0"
    by (simp add: example_defs)
  have h2: "current_views example_state < 1000"
    by (simp add: example_defs)
  have h4: "int (length [''p0'', ''p1'']) mod update_pbar_count example_config = 0"
    by (simp add: example_defs)
  obtain st1 where
    h3: "round_loop example_env example_config ''BV1'' 1000 0 [''p0'', ''p1'']
           (example_state\<lparr>world := snd (io_now example_env (world example_state))\<rparr>)
         = Inr (Continue st1)"
    and f: "fetches (world st1) = 1" and p: "posts (world st1) = 2"
    by (simp add: example_defs dispatch_defs)
  have h5: "read_snapshot (fetch_reply example_env (fetches (world st1)))
              = Inr (example_info 1005, 1005)"
    by (simp add: f) (simp add: example_defs read_snapshot_def get_video_info_def)
  have h6: "(1000::int) \<le> 1005" by simp
  from C1_poll_reaches_target [OF h1 h2 h3 h4 h5 h6, of "''p2''" "[''p3'']"]
  show ?thesis using h1 h2 h4 p by auto
qed

lemma update_view_count_world:
  "\<exists>st1 evs. (update_view_count e target st = Continue st1 \<or> update_view_count e target st = Break st1)
     \<and> fetches (world st1) = Suc (fetches (world st))
     \<and> posts (world st1) = posts (world st)
     \<and> events (world st1) = events (world st) @ Poll # evs"
  by (cases "read_snapshot (fetch_reply e (fetches (world st)))")
     (auto simp add: update_view_count_def io_get_def io_emit_def Let_def)

text \<open>
  C10. For every update modulus \<open>N > 0\<close>, a round over a non-empty proxy list starts
  with the periodic update: the pass at index 0 is the poll followed, only if the poll
  did not break, by the first click; the poll always issues its request before anything
  else. If that poll reads a counter at or above the target, the round ends in \<open>Break\<close>
  with the poll as its only action and no click request issued.
\<close>

theorem C10_round_begins_with_poll:
  assumes "0 < update_pbar_count cfg"
  shows "round_loop e cfg bvid target 0 (proxy # rest) st =
           (case update_view_count e target st of
              Break st1 \<Rightarrow> Inr (Break st1)
            | Continue st1 \<Rightarrow>
               (case send_click e bvid proxy st1 of
                  Inl err \<Rightarrow> Inl err
                | Inr st2 \<Rightarrow> round_loop e cfg bvid target (Suc 0) rest st2))
       \<and> (\<exists>st1 evs. (update_view_count e target st = Continue st1
                       \<or> update_view_count e target st = Break st1)
              \<and> fetches (world st1) = Suc (fetches (world st))
              \<and> posts (world st1) = posts (world st)
              \<and> events (world st1) = events (world st) @ Poll # evs)
       \<and> (\<forall>upd v. read_snapshot (fetch_reply e (fetches (world st))) = Inr (upd, v) \<and> target \<le> v
             \<longrightarrow> (\<exists>st2. round_loop e cfg bvid target 0 (proxy # rest) st = Inr (Break st2)
                    \<and> current_views st2 = v
                    \<and> posts (world st2) = posts (world st)
                    \<and> events (world st2) = events (world st) @ [Poll]))"
proof (intro conjI allI impI)
  show a: "round_loop e cfg bvid target 0 (proxy # rest) st =
           (case update_view_count e target st of
              Break st1 \<Rightarrow> Inr (Break st1)
            | Continue st1 \<Rightarrow>
               (case send_click e bvid proxy st1 of
                  Inl err \<Rightarrow> Inl err
                | Inr st2 \<Rightarrow> round_loop e cfg bvid target (Suc 0) rest st2))"
    using assms by (simp add: periodic_update_def)
  show "\<exists>st1 evs. (update_view_count e target st = Continue st1
                       \<or> update_view_count e target st = Break st1)
              \<and> fetches (world st1) = Suc (fetches (world st))
              \<and> posts (world st1) = posts (world st)
              \<and> events (world st1) = events (world st) @ Poll # evs"
    by (rule update_view_count_world)
  fix upd v
  assume "read_snapshot (fetch_reply e (fetches (world st))) = Inr (upd, v) \<and> target \<le> v"
  then have u: "update_view_count e target st =
           Break (st\<lparr>current_views := v, info := upd, world := snd (io_get e (world st))\<rparr>)"
    by (simp add: update_view_count_reached)
  show "\<exists>st2. round_loop e cfg bvid target 0 (proxy # rest) st = Inr (Break st2)
                    \<and> current_views st2 = v
                    \<and> posts (world st2) = posts (world st)
                    \<and> events (world st2) = events (world st) @ [Poll]"
    unfolding a u by (simp add: io_get_def)
qed

theorem C10_round_begins_with_poll_witness:
  "0 < update_pbar_count Config_init
   \<and> read_snapshot (fetch_reply example_env (fetches (world (example_state\<lparr>world := example_world\<lparr>fetches := 1\<rparr>\<rparr>))))
       = Inr (example_info 1005, 1005)
   \<and> (\<exists>st2. round_loop example_env Config_init ''BV1'' 1000 0 (''p0'' # [''p1''])
                (example_state\<lparr>world := example_world\<lparr>fetches := 1\<rparr>\<rparr>) = Inr (Break st2)
          \<and> current_views st2 = 1005
          \<and> posts (world st2) = 0
          \<and> events (world st2) = [Poll])"
proof -
  let ?st = "example_state\<lparr>world := example_world\<lparr>fetches := 1\<rparr>\<rparr>"
  have h1: "0 < update_pbar_count Config_init" by (simp add: Config_init_def)
  have h2: "read_snapshot (fetch_reply example_env (fetches (world ?st)))
       = Inr (example_info 1005, 1005)"
    by (simp add: example_defs read_snapshot_def get_video_info_def)
  have h3: "(1000::int) \<le> 1005" by simp
  have w: "posts (world ?st) = 0" "events (world ?st) = []"
    by (simp_all add: example_defs)
  from C10_round_begins_with_poll [OF h1, of example_env "''BV1''" 1000 "''p0''" "[''p1'']" ?st]
  have "\<exists>st2. round_loop example_env Config_init ''BV1'' 1000 0 (''p0'' # [''p1'']) ?st = Inr (Break st2)
          \<and> current_views st2 = 1005
          \<and> posts (world st2) = posts (world ?st)
          \<and> events (world st2) = events (world ?st) @ [Poll]"
    using h2 h3 by blast
  then have c: "\<exists>st2. round_loop example_env Config_init ''BV1'' 1000 0 (''p0'' # [''p1'']) ?st = Inr (Break st2)
          \<and> current_views st2 = 1005
          \<and> posts (world st2) = 0
          \<and> events (world st2) = [Poll]"
    by (simp only: w append_Nil)
  show ?thesis by (intro conjI) (rule h1, rule h2, rule c)
qed


text \<open>
  C4, as stated, fails for a success status other than 200: a click answered with
  204 No Content, an HTTP-success status, leaves \<open>successful_hits\<close> as it was.
\<close>

theorem C4_counterexample:
  "spec_http_success 204
   \<and> post_reply no_content_env (posts (world example_state)) = PostStatus 204
   \<and> successful_hits (stats example_state) = 0
   \<and> send_click no_content_env ''BV1'' ''p1'' example_state =
       Inr (example_state\<lparr>world := \<lparr> fetches = 0, posts = 1, nows = 0,
              events = [Click ''p1'' \<lparr> f_aid = 123456, f_cid = 789012, f_bvid = ''BV1'',
                f_part = ''1'', f_mid = 345678, f_jsonp = ''jsonp'', f_type = FormStr ''1'',
                f_sub_type = ''0'' \<rparr>] \<rparr>\<rparr>)
   \<and> successful_hits (stats (example_state\<lparr>world := \<lparr> fetches = 0, posts = 1, nows = 0,
              events = [Click ''p1'' \<lparr> f_aid = 123456, f_cid = 789012, f_bvid = ''BV1'',
                f_part = ''1'', f_mid = 345678, f_jsonp = ''jsonp'', f_type = FormStr ''1'',
                f_sub_type = ''0'' \<rparr>] \<rparr>\<rparr>)) = 0"
  by (simp add: spec_http_success_def no_content_env_def example_defs send_click_def
      click_data_of_def io_post_def)

text \<open>
  C4, amended. For every click request the loop submits (the form could be built),
  \<open>successful_hits\<close> grows by exactly one if and only if the request returns status
  200, the status the source tests for; a raised \<^verbatim>\<open>RequestException\<close> (transport
  failure, timeout) or any other status leaves it unchanged. In every case the body
  ends without an exception and the pass goes on with the next proxy.
\<close>

theorem C4_hit_iff_status_200:
  assumes "update_pbar_count cfg \<noteq> 0"
    and "periodic_update e cfg target i st0 = Continue st"
    and "click_data_of bvid (info st) = Inr cd"
  shows "\<exists>st1. send_click e bvid proxy st = Inr st1
           \<and> (successful_hits (stats st1) = successful_hits (stats st) + 1
                \<longleftrightarrow> post_reply e (posts (world st)) = PostStatus 200)
           \<and> (post_reply e (posts (world st)) \<noteq> PostStatus 200
                \<longrightarrow> successful_hits (stats st1) = successful_hits (stats st))
           \<and> events (world st1) = events (world st) @ [Click proxy cd]
           \<and> round_loop e cfg bvid target i (proxy # rest) st0 =
               round_loop e cfg bvid target (Suc i) rest st1"
  using assms
  by (cases "post_reply e (posts (world st))")
     (auto simp add: send_click_def io_post_def)

lemma read_snapshot_fails_iff:
  "(\<exists>err. read_snapshot r = Inl err) \<longleftrightarrow>
     (case r of
        RequestFailed \<Rightarrow> True
      | Reply status body \<Rightarrow>
          (400 \<le> status \<and> status < 600) \<or>
          (case body of
             None \<Rightarrow> True
           | Some d \<Rightarrow> env_code d \<noteq> Some 0 \<or>
               (case env_data d of None \<Rightarrow> True | Some i \<Rightarrow> stat_view i = None)))"
  by (auto simp add: read_snapshot_def get_video_info_def
      split: http_reply.splits option.splits sum.splits)

text \<open>
  C3, as stated, fails in its last clause: the run does not terminate as a failure. With
  proxies collected and validated and the first read failing on the transport,
  \<^verbatim>\<open>boost_view_count\<close> logs and returns, \<^verbatim>\<open>run\<close> returns with it, and the process
  ends with exit status 0, where every exception of \<^verbatim>\<open>run\<close> ends it with status 1.
\<close>

theorem C3_counterexample:
  "read_snapshot (fetch_reply (failing_env RequestFailed) (fetches example_world))
     = Inl (RuntimeError ''Failed to get video info'')
   \<and> filter_proxies two_thread_config [''p0'', ''p1''] live_sched = Some (Inr [''p0'', ''p1''])
   \<and> run (failing_env RequestFailed) two_thread_config (Inr [''p0'', ''p1'']) live_sched
        ''BV1'' 1000 Statistics_init example_world
      = Some (Inr (Statistics_init,
                   \<lparr> fetches = 1, posts = 0, nows = 0,
                     events = [Poll, LogError
                       ''Failed to get initial view count: Failed to get video info''] \<rparr>))
   \<and> main (failing_env RequestFailed) two_thread_config (Inr [''p0'', ''p1'']) live_sched
        ''BV1'' 1000 example_world = Some 0"
proof -
  have sl: "thread_slices 2 [''p0'', ''p1''] = Inr [[''p0''], [''p1'']]"
    by code_simp
  have f: "filter_proxies two_thread_config [''p0'', ''p1''] live_sched
             = Some (Inr [''p0'', ''p1''])"
    by (simp add: filter_proxies_def two_thread_config_def sl live_sched_def init_vstate_def
        run_threads_def worker_step_def set_worker_def numeral_eq_Suc)
  have r: "read_snapshot (fetch_reply (failing_env RequestFailed) (fetches example_world))
     = Inl (RuntimeError ''Failed to get video info'')"
    by (simp add: failing_env_def read_snapshot_def get_video_info_def)
  have b: "boost_view_count (failing_env RequestFailed) two_thread_config [''p0'', ''p1'']
             ''BV1'' 1000 Statistics_init example_world
      = Some (Inr (Statistics_init,
                   \<lparr> fetches = 1, posts = 0, nows = 0,
                     events = [Poll, LogError
                       ''Failed to get initial view count: Failed to get video info''] \<rparr>))"
    using r by (simp add: boost_view_count_def io_get_def io_emit_def example_world_def)
  have rn: "run (failing_env RequestFailed) two_thread_config (Inr [''p0'', ''p1'']) live_sched
        ''BV1'' 1000 Statistics_init example_world
      = Some (Inr (Statistics_init,
                   \<lparr> fetches = 1, posts = 0, nows = 0,
                     events = [Poll, LogError
                       ''Failed to get initial view count: Failed to get video info''] \<rparr>))"
    by (simp add: run_def f b)
  have m: "main (failing_env RequestFailed) two_thread_config (Inr [''p0'', ''p1'']) live_sched
        ''BV1'' 1000 example_world = Some 0"
    by (simp add: main_def rn)
  from r f rn m show ?thesis by blast
qed

text \<open>
  C3, amended. If the initial read fails (transport failure, HTTP error status, body that
  is not JSON, missing field, non-zero application code: \<open>read_snapshot_fails_iff\<close> lists
  the cases), \<^verbatim>\<open>boost_view_count\<close> returns at once, without raising: the statistics
  are the ones it was given (for a fresh \<^verbatim>\<open>Statistics()\<close>: no hit, start and end time
  unset), and all it did is the one request and the error it logged: no click request,
  no clock reading, no final report. \<^verbatim>\<open>run\<close>, having validated its proxies, returns
  the same way.
\<close>

theorem C3_initial_read_failure:
  assumes "read_snapshot (fetch_reply e (fetches w)) = Inl err"
  shows "boost_view_count e cfg proxies bvid target s w =
           Some (Inr (s, w\<lparr>fetches := Suc (fetches w),
                          events := events w @ [Poll,
                            LogError (''Failed to get initial view count: '' @ error_text err)]\<rparr>))
       \<and> (filter_proxies cfg total_proxies sched = Some (Inr proxies) \<longrightarrow>
            run e cfg (Inr total_proxies) sched bvid target s w =
              Some (Inr (s, w\<lparr>fetches := Suc (fetches w),
                          events := events w @ [Poll,
                            LogError (''Failed to get initial view count: '' @ error_text err)]\<rparr>)))"
proof -
  have b: "boost_view_count e cfg proxies bvid target s w =
           Some (Inr (s, w\<lparr>fetches := Suc (fetches w),
                          events := events w @ [Poll,
                            LogError (''Failed to get initial view count: '' @ error_text err)]\<rparr>))"
    using assms by (simp add: boost_view_count_def io_get_def io_emit_def)
  then show ?thesis by (simp add: run_def)
qed

theorem C3_initial_read_failure_witness:
  "read_snapshot (fetch_reply (failing_env RequestFailed) (fetches example_world))
     = Inl (RuntimeError ''Failed to get video info'')
   \<and> filter_proxies two_thread_config [''p0'', ''p1''] live_sched = Some (Inr [''p0'', ''p1''])
   \<and> boost_view_count (failing_env RequestFailed) two_thread_config [''p0'', ''p1''] ''BV1'' 1000
        Statistics_init example_world
      = Some (Inr (\<lparr> successful_hits = 0, initial_view_count = 0, start_time = None,
                       end_time = None \<rparr>,
                    \<lparr> fetches = 1, posts = 0, nows = 0,
                      events = [Poll, LogError
                        ''Failed to get initial view count: Failed to get video info''] \<rparr>))
   \<and> run (failing_env RequestFailed) two_thread_config (Inr [''p0'', ''p1'']) live_sched
        ''BV1'' 1000 Statistics_init example_world
      = Some (Inr (\<lparr> successful_hits = 0, initial_view_count = 0, start_time = None,
                       end_time = None \<rparr>,
                    \<lparr> fetches = 1, posts = 0, nows = 0,
                      events = [Poll, LogError
                        ''Failed to get initial view count: Failed to get video info''] \<rparr>))
   \<and> read_snapshot (fetch_reply (failing_env (Reply 200 (Some \<lparr> env_code = Some 0,
          env_message = None, env_data = None \<rparr>))) (fetches example_world))
     = Inl (RuntimeError ''Failed to parse video info'')
   \<and> boost_view_count (failing_env (Reply 200 (Some \<lparr> env_code = Some 0,
          env_message = None, env_data = None \<rparr>))) Config_init [''p0'', ''p1''] ''BV1'' 1000
        Statistics_init example_world
      = Some (Inr (\<lparr> successful_hits = 0, initial_view_count = 0, start_time = None,
                       end_time = None \<rparr>,
                    \<lparr> fetches = 1, posts = 0, nows = 0,
                      events = [Poll, LogError
                        ''Failed to get initial view count: Failed to parse video info''] \<rparr>))
   \<and> read_snapshot (fetch_reply (failing_env (Reply 200 (Some \<lparr> env_code = Some (- 1),
          env_message = Some ''Video not found'', env_data = None \<rparr>))) (fetches example_world))
     = Inl (RuntimeError ''Bilibili API error: Video not found'')
   \<and> boost_view_count (failing_env (Reply 200 (Some \<lparr> env_code = Some (- 1),
          env_message = Some ''Video not found'', env_data = None \<rparr>)))
        Config_init [''p0'', ''p1''] ''BV1'' 1000 Statistics_init example_world
      = Some (Inr (\<lparr> successful_hits = 0, initial_view_count = 0, start_time = None,
                       end_time = None \<rparr>,
                    \<lparr> fetches = 1, posts = 0, nows = 0,
                      events = [Poll, LogError
                        ''Failed to get initial view count: Bilibili API error: Video not found''] \<rparr>))"
proof -
  let ?r2 = "Reply 200 (Some \<lparr> env_code = Some 0, env_message = None, env_data = None \<rparr>)"
  let ?r3 = "Reply 200 (Some \<lparr> env_code = Some (- 1),
          env_message = Some ''Video not found'', env_data = None \<rparr>)"
  have sl: "thread_slices 2 [''p0'', ''p1''] = Inr [[''p0''], [''p1'']]"
    by code_simp
  have f: "filter_proxies two_thread_config [''p0'', ''p1''] live_sched
             = Some (Inr [''p0'', ''p1''])"
    by (simp add: filter_proxies_def two_thread_config_def sl live_sched_def init_vstate_def
        run_threads_def worker_step_def set_worker_def numeral_eq_Suc)
  have h1: "read_snapshot (fetch_reply (failing_env RequestFailed) (fetches example_world))
     = Inl (RuntimeError ''Failed to get video info'')"
    by (simp add: failing_env_def read_snapshot_def get_video_info_def)
  have h2: "read_snapshot (fetch_reply (failing_env ?r2) (fetches example_world))
     = Inl (RuntimeError ''Failed to parse video info'')"
    by (simp add: failing_env_def read_snapshot_def get_video_info_def)
  have h3: "read_snapshot (fetch_reply (failing_env ?r3) (fetches example_world))
     = Inl (RuntimeError ''Bilibili API error: Video not found'')"
    by (simp add: failing_env_def read_snapshot_def get_video_info_def)
  note a = C3_initial_read_failure [OF h1, where cfg = two_thread_config
      and proxies = "[''p0'', ''p1'']" and bvid = "''BV1''" and target = 1000
      and s = Statistics_init and total_proxies = "[''p0'', ''p1'']" and sched = live_sched]
  note b = C3_initial_read_failure [OF h2, where cfg = Config_init
      and proxies = "[''p0'', ''p1'']" and bvid = "''BV1''" and target = 1000
      and s = Statistics_init, THEN conjunct1]
  note c = C3_initial_read_failure [OF h3, where cfg = Config_init
      and proxies = "[''p0'', ''p1'']" and bvid = "''BV1''" and target = 1000
      and s = Statistics_init, THEN conjunct1]
  show ?thesis
    using h1 h2 h3 f a b c
    by (simp add: Statistics_init_def example_world_def)
qed

lemma py_int_floor: "nat (py_int x) = nat \<lfloor>x\<rfloor>"
proof (cases "0 \<le> x")
  case True
  then show ?thesis by (simp add: py_int_def)
next
  case False
  then have "\<lceil>x\<rceil> \<le> 0" "\<lfloor>x\<rfloor> \<le> 0"
    by simp_all
  with False show ?thesis by (simp add: py_int_def)
qed

lemma wait_ticks_eq:
  "wait_ticks cfg elapsed =
     map (\<lambda>second. Tick (int second))
       (rev [0..<nat \<lfloor>of_int (round_time cfg) - total_seconds elapsed\<rfloor>])"
proof -
  have "wait_ticks cfg elapsed =
     map (\<lambda>second. Tick (int second)) (rev [0..<nat (remain_seconds cfg elapsed)])"
    by (simp add: wait_ticks_def)
  then show ?thesis by (simp add: remain_seconds_def py_int_floor)
qed

text \<open>
  C5, as stated, fails when the remainder is not a whole number of seconds: with a round
  time of 305 s and a round that took 304.5 s the remainder is positive (half a second),
  and the loop waits zero ticks.
\<close>

theorem C5_counterexample:
  "0 < of_int (round_time Config_init) - total_seconds 304500000
   \<and> of_nat (length (wait_ticks Config_init 304500000))
        \<noteq> of_int (round_time Config_init) - total_seconds 304500000
   \<and> wait_ticks Config_init 304500000 = []"
  by (simp add: wait_ticks_def remain_seconds_def py_int_def total_seconds_def Config_init_def)

text \<open>
  C5, amended. After a pass that did not reach the target, with round time \<open>D\<close> and
  elapsed time \<open>e\<close>, the loop performs \<open>\<lfloor>D - e\<rfloor>\<close> one-second ticks when that is
  positive, displaying the seconds \<open>\<lfloor>D - e\<rfloor> - 1\<close> down to \<open>0\<close>, and none otherwise,
  in particular none when \<open>e \<ge> D\<close>; for \<open>e\<close> a whole number of seconds below \<open>D\<close>
  these are exactly \<open>D - e\<close> ticks. The ticks come before the next round starts.
\<close>

theorem C5_cooldown_ticks:
  "wait_ticks cfg elapsed =
     map (\<lambda>second. Tick (int second))
       (rev [0..<nat \<lfloor>of_int (round_time cfg) - total_seconds elapsed\<rfloor>])
   \<and> length (wait_ticks cfg elapsed) = nat \<lfloor>of_int (round_time cfg) - total_seconds elapsed\<rfloor>
   \<and> (of_int (round_time cfg) \<le> total_seconds elapsed \<longrightarrow> wait_ticks cfg elapsed = [])
   \<and> (\<forall>d. elapsed = 1000000 * d \<and> d < round_time cfg \<longrightarrow>
          int (length (wait_ticks cfg elapsed)) = round_time cfg - d)
   \<and> (\<forall>st2. current_views st < target \<and>
          round_loop e cfg bvid target 0 proxies (st\<lparr>world := snd (io_now e (world st))\<rparr>)
            = Inr (Continue st2) \<longrightarrow>
          dispatch_rounds e cfg proxies bvid target st =
            dispatch_rounds e cfg proxies bvid target
              (st2\<lparr>world := (world st2)\<lparr>nows := Suc (nows (world st2)),
                  events := events (world st2) @
                    wait_ticks cfg (clock e (nows (world st2)) - clock e (nows (world st)))\<rparr>\<rparr>))"
proof (intro conjI allI impI)
  let ?x = "of_int (round_time cfg) - total_seconds elapsed"
  show eq: "wait_ticks cfg elapsed = map (\<lambda>second. Tick (int second)) (rev [0..<nat \<lfloor>?x\<rfloor>])"
    by (rule wait_ticks_eq)
  show len: "length (wait_ticks cfg elapsed) = nat \<lfloor>?x\<rfloor>"
    by (simp add: eq)
  show "wait_ticks cfg elapsed = []" if "of_int (round_time cfg) \<le> total_seconds elapsed"
  proof -
    from that have "?x \<le> 0" by simp
    then have "\<lfloor>?x\<rfloor> \<le> 0" by simp
    then show ?thesis by (simp add: eq)
  qed
  show "int (length (wait_ticks cfg elapsed)) = round_time cfg - d"
    if "elapsed = 1000000 * d \<and> d < round_time cfg" for d
  proof -
    from that have "?x = of_int (round_time cfg - d)"
      by (simp add: total_seconds_def)
    then have fl: "\<lfloor>?x\<rfloor> = round_time cfg - d" by (simp only: floor_of_int)
    show ?thesis unfolding len fl using that by simp
  qed
  show "dispatch_rounds e cfg proxies bvid target st =
            dispatch_rounds e cfg proxies bvid target
              (st2\<lparr>world := (world st2)\<lparr>nows := Suc (nows (world st2)),
                  events := events (world st2) @
                    wait_ticks cfg (clock e (nows (world st2)) - clock e (nows (world st)))\<rparr>\<rparr>)"
    if "current_views st < target \<and>
          round_loop e cfg bvid target 0 proxies (st\<lparr>world := snd (io_now e (world st))\<rparr>)
            = Inr (Continue st2)" for st2
    using that dispatch_rounds_continue [of st target e cfg bvid proxies st2]
    by (simp add: cooldown_def io_now_def)
qed

theorem C5_cooldown_ticks_witness:
  "length (wait_ticks Config_init 40000000) = 265
   \<and> of_int (round_time Config_init) \<le> total_seconds 400000000
   \<and> wait_ticks Config_init 400000000 = []
   \<and> (40000000::int) = 1000000 * 40 \<and> 40 < round_time Config_init
   \<and> int (length (wait_ticks Config_init 40000000)) = round_time Config_init - 40
   \<and> current_views example_state < 1000
   \<and> (\<exists>st2. round_loop slow_env Config_init ''BV1'' 1000 0 [''p0'']
               (example_state\<lparr>world := snd (io_now slow_env (world example_state))\<rparr>)
             = Inr (Continue st2)
         \<and> nows (world st2) = 1
         \<and> dispatch_rounds slow_env Config_init [''p0''] ''BV1'' 1000 example_state =
            dispatch_rounds slow_env Config_init [''p0''] ''BV1'' 1000
              (st2\<lparr>world := (world st2)\<lparr>nows := Suc (nows (world st2)),
                  events := events (world st2) @ wait_ticks Config_init 40000000\<rparr>\<rparr>))"
proof -
  note inst = C5_cooldown_ticks [of Config_init _ example_state 1000 slow_env "''BV1''" "[''p0'']"]
  have a: "length (wait_ticks Config_init 40000000) = 265"
    using inst [of 40000000] by (simp add: Config_init_def total_seconds_def)
  have b1: "of_int (round_time Config_init) \<le> total_seconds 400000000"
    by (simp add: Config_init_def total_seconds_def)
  have b: "wait_ticks Config_init 400000000 = []"
    using inst [of 400000000] b1 by blast
  have c1: "(40000000::int) = 1000000 * 40 \<and> 40 < round_time Config_init"
    by (simp add: Config_init_def)
  have c: "int (length (wait_ticks Config_init 40000000)) = round_time Config_init - 40"
    using inst [of 40000000] c1 by blast
  have d1: "current_views example_state < 1000"
    by (simp add: example_defs)
  obtain st2 where
    d2: "round_loop slow_env Config_init ''BV1'' 1000 0 [''p0'']
               (example_state\<lparr>world := snd (io_now slow_env (world example_state))\<rparr>)
             = Inr (Continue st2)"
    and n: "nows (world st2) = 1"
    by (simp add: example_defs slow_env_def dispatch_defs)
  have d: "dispatch_rounds slow_env Config_init [''p0''] ''BV1'' 1000 example_state =
            dispatch_rounds slow_env Config_init [''p0''] ''BV1'' 1000
              (st2\<lparr>world := (world st2)\<lparr>nows := Suc (nows (world st2)),
                  events := events (world st2) @
                    wait_ticks Config_init (clock slow_env (nows (world st2))
                       - clock slow_env (nows (world example_state)))\<rparr>\<rparr>)"
    using inst [of 0] d1 d2 by blast
  have e: "clock slow_env (nows (world st2)) - clock slow_env (nows (world example_state)) = 40000000"
    by (simp add: n) (simp add: slow_env_def example_defs)
  from d have d': "dispatch_rounds slow_env Config_init [''p0''] ''BV1'' 1000 example_state =
            dispatch_rounds slow_env Config_init [''p0''] ''BV1'' 1000
              (st2\<lparr>world := (world st2)\<lparr>nows := Suc (nows (world st2)),
                  events := events (world st2) @ wait_ticks Config_init 40000000\<rparr>\<rparr>)"
    by (simp only: e)
  show ?thesis
    using a b1 b c1 c d1 d2 n d' by blast
qed


theorem C4_hit_iff_status_200_witness:
  "update_pbar_count Config_init \<noteq> 0
   \<and> periodic_update example_env Config_init 1000 1 example_state = Continue example_state
   \<and> (\<exists>cd. click_data_of ''BV1'' (info example_state) = Inr cd)
   \<and> post_reply example_env (posts (world example_state)) = PostStatus 200
   \<and> (\<exists>st1. send_click example_env ''BV1'' ''p1'' example_state = Inr st1
          \<and> successful_hits (stats st1) = 1
          \<and> round_loop example_env Config_init ''BV1'' 1000 1 (''p1'' # [''p2'']) example_state =
              round_loop example_env Config_init ''BV1'' 1000 (Suc 1) [''p2''] st1)
   \<and> post_reply example_env (posts (world (example_state\<lparr>world := example_world\<lparr>posts := 1\<rparr>\<rparr>)))
        \<noteq> PostStatus 200
   \<and> (\<exists>st1. send_click example_env ''BV1'' ''p1''
               (example_state\<lparr>world := example_world\<lparr>posts := 1\<rparr>\<rparr>) = Inr st1
          \<and> successful_hits (stats st1) = 0)"
proof -
  let ?st' = "example_state\<lparr>world := example_world\<lparr>posts := 1\<rparr>\<rparr>"
  have h1: "update_pbar_count Config_init \<noteq> 0" by (simp add: Config_init_def)
  have h2: "periodic_update example_env Config_init 1000 1 example_state = Continue example_state"
    by (simp add: periodic_update_def Config_init_def)
  have h2': "periodic_update example_env Config_init 1000 1 ?st' = Continue ?st'"
    by (simp add: periodic_update_def Config_init_def)
  obtain cd where h3: "click_data_of ''BV1'' (info example_state) = Inr cd"
    by (simp add: click_data_of_def example_state_def example_info_def)
  then have h3': "click_data_of ''BV1'' (info ?st') = Inr cd" by simp
  have r: "post_reply example_env (posts (world example_state)) = PostStatus 200"
    by (simp add: example_defs)
  have r': "post_reply example_env (posts (world ?st')) \<noteq> PostStatus 200"
    by (simp add: example_defs)
  have z: "successful_hits (stats example_state) = 0" "successful_hits (stats ?st') = 0"
    by (simp_all add: example_defs)
  from C4_hit_iff_status_200 [where proxy = "''p1''" and rest = "[''p2'']", OF h1 h2 h3] r z
  have a: "\<exists>st1. send_click example_env ''BV1'' ''p1'' example_state = Inr st1
          \<and> successful_hits (stats st1) = 1
          \<and> round_loop example_env Config_init ''BV1'' 1000 1 (''p1'' # [''p2'']) example_state =
              round_loop example_env Config_init ''BV1'' 1000 (Suc 1) [''p2''] st1"
    by auto
  from C4_hit_iff_status_200 [where proxy = "''p1''" and rest = "[''p2'']", OF h1 h2' h3'] r' z
  have b: "\<exists>st1. send_click example_env ''BV1'' ''p1'' ?st' = Inr st1
          \<and> successful_hits (stats st1) = 0"
    by auto
  from h1 h2 h3 r a r' b show ?thesis by blast
qed

section \<open>Properties of the validator's threads\<close>

lemma run_threads_Nil [simp]: "run_threads [] s = s"
  by (simp add: run_threads_def)

lemma run_threads_Cons [simp]:
  "run_threads ((t, r) # sched) s = run_threads sched (worker_step t r s)"
  by (simp add: run_threads_def)

lemma run_threads_append [simp]:
  "run_threads (sched @ sched') s = run_threads sched' (run_threads sched s)"
  by (simp add: run_threads_def)

lemma run_threads_invariant:
  assumes "P s" and "\<And>t r s. P s \<Longrightarrow> P (worker_step t r s)"
  shows "P (run_threads sched s)"
  using assms(1)
proof (induction sched arbitrary: s)
  case Nil
  then show ?case by simp
next
  case (Cons a sched)
  obtain t r where a: "a = (t, r)" by (cases a)
  show ?case unfolding a run_threads_Cons
    by (rule Cons.IH) (rule assms(2) [OF Cons.prems])
qed

lemma length_workers_step [simp]: "length (workers (worker_step t r s)) = length (workers s)"
  by (simp add: worker_step_def set_worker_def split: worker.split list.split probe_result.split)

lemma lock_inv_init: "lock_inv (init_vstate ss)"
  by (simp add: lock_inv_def init_vstate_def)

lemma lock_inv_step: "lock_inv s \<Longrightarrow> lock_inv (worker_step t r s)"
  unfolding lock_inv_def worker_step_def set_worker_def
  by (auto simp add: nth_list_update split: worker.split list.split probe_result.split)




lemma none_appending_init: "none_appending (init_vstate ss)"
  by (simp add: none_appending_def init_vstate_def list_all_iff)

lemma list_all_update:
  "list_all P ws \<Longrightarrow> P w \<Longrightarrow> list_all P (ws[t := w])"
  by (auto simp add: list_all_iff dest: set_update_subset_insert [THEN subsetD])

lemma none_appending_step:
  assumes "none_appending s" and "r \<noteq> ProbeStatus 200"
  shows "none_appending (worker_step t r s)"
proof (cases "t < length (workers s)")
  case False
  with assms show ?thesis by (simp add: worker_step_def)
next
  case True
  from assms(1) have a: "active_proxies s = []" and l: "list_all (\<lambda>w. \<not> appending w) (workers s)"
    by (simp_all add: none_appending_def)
  from l True have n: "\<not> appending (workers s ! t)"
    by (simp add: list_all_length)
  show ?thesis
    using a n l True assms(2) list_all_update [OF l]
    by (cases "workers s ! t"; cases r)
       (auto simp add: worker_step_def set_worker_def none_appending_def split: list.split)
qed

lemma none_appending_run:
  "none_appending s \<Longrightarrow> all_fail sched \<Longrightarrow> none_appending (run_threads sched s)"
proof (induction sched arbitrary: s)
  case Nil
  then show ?case by simp
next
  case (Cons a sched)
  obtain t r where a: "a = (t, r)" by (cases a)
  from Cons.prems(2) have r: "r \<noteq> ProbeStatus 200" and rest: "all_fail sched"
    by (simp_all add: all_fail_def a)
  show ?case unfolding a run_threads_Cons
    by (rule Cons.IH [OF none_appending_step [OF Cons.prems(1) r] rest])
qed

lemma solo_step:
  assumes "can_run t s"
  shows "can_run t (worker_step t ProbeRaised s)
       \<and> (\<exists>w. workers (worker_step t ProbeRaised s) = (workers s)[t := w]
              \<and> steps_left w \<le> steps_left (workers s ! t) - 1)"
proof -
  from assms have t: "t < length (workers s)" by (simp add: can_run_def)
  have id: "(workers s)[t := workers s ! t] = workers s" by (rule list_update_id)
  show ?thesis
  proof (cases "workers s ! t")
    case (AtLoop ps)
    show ?thesis
    proof (cases ps)
      case Nil
      have "worker_step t ProbeRaised s = s"
        using t AtLoop Nil by (simp add: worker_step_def)
      moreover have "workers s = (workers s)[t := AtLoop []]"
        using id AtLoop Nil by simp
      ultimately show ?thesis using assms AtLoop Nil
        by (auto intro!: exI [of _ "AtLoop []"])
    next
      case (Cons p ps')
      then show ?thesis using assms t AtLoop
        by (auto simp add: can_run_def worker_step_def set_worker_def)
    qed
  next
    case (InCount p ps)
    then show ?thesis using assms t
      by (auto simp add: can_run_def worker_step_def set_worker_def)
  next
    case (AtProbe p ps)
    then show ?thesis using assms t
      by (auto simp add: can_run_def worker_step_def set_worker_def)
  next
    case (AtAppend p ps)
    then show ?thesis using assms t
      by (auto simp add: can_run_def worker_step_def set_worker_def)
  next
    case (InAppend p ps)
    then show ?thesis using assms t
      by (auto simp add: can_run_def worker_step_def set_worker_def)
  qed
qed

lemma solo_run:
  assumes "can_run t s" and "steps_left (workers s ! t) \<le> n"
  shows "workers (run_threads (replicate n (t, ProbeRaised)) s) = (workers s)[t := AtLoop []]
       \<and> lock (run_threads (replicate n (t, ProbeRaised)) s) = None"
  using assms
proof (induction n arbitrary: s)
  case 0
  then have w: "workers s ! t = AtLoop []"
    by (cases "workers s ! t") simp_all
  then have "(workers s)[t := AtLoop []] = workers s"
    by (metis list_update_id)
  with 0 w show ?case by (auto simp add: can_run_def)
next
  case (Suc n)
  let ?s1 = "worker_step t ProbeRaised s"
  from solo_step [OF Suc.prems(1)] obtain w where
    c: "can_run t ?s1" and w: "workers ?s1 = (workers s)[t := w]"
    and m: "steps_left w \<le> steps_left (workers s ! t) - 1"
    by blast
  from Suc.prems(1) have t: "t < length (workers s)" by (simp add: can_run_def)
  have "steps_left (workers ?s1 ! t) \<le> n"
    using m Suc.prems(2) t by (simp add: w)
  from Suc.IH [OF c this] show ?case
    by (simp add: w)
qed

lemma all_fail_replicate: "all_fail (replicate n (t, ProbeRaised))"
  by (simp add: all_fail_def list_all_iff)

lemma all_fail_append: "all_fail (a @ b) \<longleftrightarrow> all_fail a \<and> all_fail b"
  by (simp add: all_fail_def)

lemma drain_upto:
  assumes "lock s = None" and "k \<le> length (workers s)"
  shows "\<exists>sched. all_fail sched
           \<and> lock (run_threads sched s) = None
           \<and> workers (run_threads sched s) = replicate k (AtLoop []) @ drop k (workers s)"
  using assms(2)
proof (induction k)
  case 0
  have "all_fail [] \<and> lock (run_threads [] s) = None
        \<and> workers (run_threads [] s) = replicate 0 (AtLoop []) @ drop 0 (workers s)"
    using assms(1) by (simp add: all_fail_def)
  then show ?case by blast
next
  case (Suc k)
  then obtain sched where f: "all_fail sched" and l: "lock (run_threads sched s) = None"
    and w: "workers (run_threads sched s) = replicate k (AtLoop []) @ drop k (workers s)"
    by auto
  let ?s1 = "run_threads sched s"
  let ?n = "steps_left (workers ?s1 ! k)"
  from Suc.prems have len: "length (workers ?s1) = length (workers s)" and k: "k < length (workers s)"
    by (simp_all add: w)
  have c: "can_run k ?s1" using l k len by (simp add: can_run_def)
  from solo_run [OF c order_refl]
  have l2: "lock (run_threads (replicate ?n (k, ProbeRaised)) ?s1) = None"
    and w2: "workers (run_threads (replicate ?n (k, ProbeRaised)) ?s1) = (workers ?s1)[k := AtLoop []]"
    by simp_all
  have "(workers ?s1)[k := AtLoop []] = replicate (Suc k) (AtLoop []) @ drop (Suc k) (workers s)"
    using k by (simp add: w list_update_append replicate_append_same
        Cons_nth_drop_Suc [symmetric])
  with l2 w2 f have "all_fail (sched @ replicate ?n (k, ProbeRaised))
    \<and> lock (run_threads (sched @ replicate ?n (k, ProbeRaised)) s) = None
    \<and> workers (run_threads (sched @ replicate ?n (k, ProbeRaised)) s)
         = replicate (Suc k) (AtLoop []) @ drop (Suc k) (workers s)"
    by (simp add: all_fail_append all_fail_replicate)
  then show ?case by blast
qed

lemma drain_all:
  assumes "lock_inv s"
  shows "\<exists>sched. all_fail sched \<and> list_all finished (workers (run_threads sched s))"
proof -
  have "\<exists>sched0. all_fail sched0 \<and> lock (run_threads sched0 s) = None"
  proof (cases "lock s")
    case None
    then have "all_fail [] \<and> lock (run_threads [] s) = None" by (simp add: all_fail_def)
    then show ?thesis by blast
  next
    case (Some t)
    with assms have "can_run t s" by (simp add: lock_inv_def can_run_def)
    from solo_run [OF this order_refl] all_fail_replicate show ?thesis by blast
  qed
  then obtain sched0 where f0: "all_fail sched0" and l0: "lock (run_threads sched0 s) = None"
    by blast
  from drain_upto [OF l0 order_refl] obtain sched1 where
    f1: "all_fail sched1"
    and w: "workers (run_threads sched1 (run_threads sched0 s))
            = replicate (length (workers (run_threads sched0 s))) (AtLoop [])"
    by auto
  have "all_fail (sched0 @ sched1) \<and> list_all finished (workers (run_threads (sched0 @ sched1) s))"
    using f0 f1 by (simp add: all_fail_append w list_all_iff)
  then show ?thesis by blast
qed

lemma lock_inv_run: "lock_inv (run_threads sched (init_vstate ss))"
  by (rule run_threads_invariant [where P = lock_inv, OF lock_inv_init lock_inv_step])















lemma thread_slices_nonzero:
  "n \<noteq> 0 \<Longrightarrow> thread_slices n xs = Inr (map (thread_slice n xs) [0..<nat n])"
  by (simp add: thread_slices_def)

text \<open>
  C7. For a thread count other than zero and every candidate list: under a schedule in
  which no probe returns status 200 nothing is ever appended, so
  \<^verbatim>\<open>filter_proxies\<close>, once its threads have finished, raises
  \<^verbatim>\<open>RuntimeError("No active proxies found")\<close> and never returns a list; and every such
  schedule extends to one under which all threads finish and the function raises.
\<close>

theorem C7_all_probes_fail:
  assumes "thread_num cfg \<noteq> 0" and "all_fail sched"
  shows "\<exists>ss. thread_slices (thread_num cfg) total_proxies = Inr ss
           \<and> active_proxies (run_threads sched (init_vstate ss)) = []
           \<and> (filter_proxies cfg total_proxies sched = None
              \<or> filter_proxies cfg total_proxies sched
                   = Some (Inl (RuntimeError ''No active proxies found'')))
           \<and> (\<exists>sched'. all_fail sched'
                \<and> filter_proxies cfg total_proxies (sched @ sched')
                     = Some (Inl (RuntimeError ''No active proxies found'')))"
proof -
  let ?ss = "map (thread_slice (thread_num cfg) total_proxies) [0..<nat (thread_num cfg)]"
  let ?s = "run_threads sched (init_vstate ?ss)"
  have sl: "thread_slices (thread_num cfg) total_proxies = Inr ?ss"
    by (rule thread_slices_nonzero [OF assms(1)])
  have na: "none_appending ?s"
    by (rule none_appending_run [OF none_appending_init assms(2)])
  then have a: "active_proxies ?s = []" by (simp add: none_appending_def)
  have f: "filter_proxies cfg total_proxies sched = None
              \<or> filter_proxies cfg total_proxies sched
                   = Some (Inl (RuntimeError ''No active proxies found''))"
    by (simp add: filter_proxies_def sl a Let_def)
  from drain_all [OF lock_inv_run [of sched ?ss]] obtain sched' where
    f': "all_fail sched'" and fin: "list_all finished (workers (run_threads sched' ?s))"
    by blast
  have "none_appending (run_threads sched' ?s)"
    by (rule none_appending_run [OF na f'])
  then have "active_proxies (run_threads (sched @ sched') (init_vstate ?ss)) = []"
    by (simp add: none_appending_def)
  with fin have "filter_proxies cfg total_proxies (sched @ sched')
                     = Some (Inl (RuntimeError ''No active proxies found''))"
    by (simp add: filter_proxies_def sl Let_def)
  with f' sl a f show ?thesis by blast
qed

theorem C7_all_probes_fail_witness:
  "thread_num (Config_init\<lparr>thread_num := 2\<rparr>) \<noteq> 0
   \<and> all_fail [(0, ProbeRaised), (1, ProbeStatus 503), (0, ProbeRaised)]
   \<and> filter_proxies (Config_init\<lparr>thread_num := 2\<rparr>) [''a'', ''b'', ''c'']
        [(0, ProbeRaised), (1, ProbeStatus 503), (0, ProbeRaised)] = None
   \<and> (\<exists>sched'. all_fail sched'
        \<and> filter_proxies (Config_init\<lparr>thread_num := 2\<rparr>) [''a'', ''b'', ''c'']
             ([(0, ProbeRaised), (1, ProbeStatus 503), (0, ProbeRaised)] @ sched')
            = Some (Inl (RuntimeError ''No active proxies found'')))
   \<and> filter_proxies (Config_init\<lparr>thread_num := 2\<rparr>) [''a'', ''b'', ''c'']
        [(0, ProbeRaised), (0, ProbeRaised), (0, ProbeStatus 404),
         (1, ProbeRaised), (1, ProbeRaised), (1, ProbeStatus 500),
         (1, ProbeRaised), (1, ProbeRaised), (1, ProbeRaised)]
       = Some (Inl (RuntimeError ''No active proxies found''))"
proof -
  let ?cfg = "Config_init\<lparr>thread_num := 2\<rparr>"
  have h1: "thread_num ?cfg \<noteq> 0" by simp
  have h2: "all_fail [(0, ProbeRaised), (1, ProbeStatus 503), (0, ProbeRaised)]"
    by (simp add: all_fail_def)
  have sl: "thread_slices 2 [''a'', ''b'', ''c''] = Inr [[''a''], [''b'', ''c'']]"
    by code_simp
  have n: "filter_proxies ?cfg [''a'', ''b'', ''c'']
        [(0, ProbeRaised), (1, ProbeStatus 503), (0, ProbeRaised)] = None"
    by (simp add: filter_proxies_def sl init_vstate_def worker_step_def set_worker_def)
  have e: "filter_proxies ?cfg [''a'', ''b'', ''c'']
        [(0, ProbeRaised), (0, ProbeRaised), (0, ProbeStatus 404),
         (1, ProbeRaised), (1, ProbeRaised), (1, ProbeStatus 500),
         (1, ProbeRaised), (1, ProbeRaised), (1, ProbeRaised)]
       = Some (Inl (RuntimeError ''No active proxies found''))"
    by (simp add: filter_proxies_def sl init_vstate_def worker_step_def set_worker_def)
  from C7_all_probes_fail [OF h1 h2, of "[''a'', ''b'', ''c'']"]
  have "\<exists>sched'. all_fail sched'
        \<and> filter_proxies ?cfg [''a'', ''b'', ''c'']
             ([(0, ProbeRaised), (1, ProbeStatus 503), (0, ProbeRaised)] @ sched')
            = Some (Inl (RuntimeError ''No active proxies found''))"
    by blast
  with h1 h2 n e show ?thesis by blast
qed

end
